theory Spec2Isabelle
  imports
    Complex_Main
    "HOL-Library.Sublist"
    "HOL-Library.Char_ord"
    "HOL-Library.List_Lexorder"
    "HOL-Library.Multiset"
begin

section \<open>The inventory repository of \<^verbatim>\<open>src/db/crud/books.crud.ts\<close>\<close>

text \<open>
  The module is a set of asynchronous functions over a relational store with the two
  tables \<^verbatim>\<open>books\<close> and \<^verbatim>\<open>physical_books\<close>. The store is modelled as a record of the
  two tables (row lists, in scan order); a function that writes returns the new store.
  A rejected promise is a value \<open>Inl e\<close> of a sum type. Every store query of a call can
  fail: the argument \<open>flt\<close> of each function says, for the \<open>k\<close>-th query the call issues,
  whether the store fails it. Numbers (ids, counts, page numbers, limits) are integers;
  a string is the list of its characters, one \<open>char\<close> for each character as the store
  counts them; console output is left out.
\<close>

subsection \<open>Rows and tables\<close>

text \<open>
  Modelled from the spec: the schema module \<^verbatim>\<open>@/drizzle/schema\<close> is not part of the
  sources; the columns are those of section 3 of the specification, under the property
  names the source uses (\<^verbatim>\<open>books.id\<close> is \<open>book_id\<close> here). \<open>book_insert\<close> is
  \<^verbatim>\<open>typeof books.$inferInsert\<close> as \<^verbatim>\<open>createBooks\<close> fills it, \<open>book\<close> a selected row.
\<close>

record book_insert =
  isbn :: string
  title :: string
  author :: string
  genre :: string
  totalCopies :: int
  availableCopies :: int
  cover :: string

record book = book_insert +
  book_id :: int

text \<open>The value \<^verbatim>\<open>{...book[0], availableBooks: n}\<close> of \<^verbatim>\<open>readSingleBook\<close>.\<close>

record book_available = book +
  availableBooks :: int

text \<open>Modelled from the spec: a row of \<^verbatim>\<open>physical_books\<close> (section 3, Copy).\<close>

record physicalBook =
  pid :: int
  bookId :: int
  borrowed :: bool
  returnDate :: "string option"
  userId :: "string option"
  currTransactionId :: "int option"

text \<open>
  \<open>books_id_seq\<close> is the last value of the sequence behind the store-assigned
  \<^verbatim>\<open>books.id\<close>.
\<close>

record store =
  books_rows :: "book list"
  physicalBooks_rows :: "physicalBook list"
  books_id_seq :: int

text \<open>
  What a rejected promise carries: \<open>StoreError\<close> for a failed store query,
  \<open>Error msg\<close> for \<^verbatim>\<open>new Error(msg)\<close> thrown by the module itself.
\<close>

datatype error = StoreError | Error string

text \<open>A value that may be \<^verbatim>\<open>undefined\<close> or \<^verbatim>\<open>null\<close>.\<close>

datatype 'a jsval = Undefined | Null | Obj 'a

text \<open>
  A number that \<^verbatim>\<open>Math.ceil(a / b)\<close> can return for integers \<open>a\<close> and \<open>b\<close>.
\<close>

datatype jsnum = Num int | Infinity | NegInfinity | NaN

type_synonym faults = "nat \<Rightarrow> bool"

text \<open>
  Three fault patterns: the store answers every query, fails every query, fails the
  second query only.
\<close>

definition no_faults :: faults where
  "no_faults k = False"

definition store_down :: faults where
  "store_down k = True"

definition count_fails :: faults where
  "count_fails k = (k = 1)"

subsection \<open>The store's query interface\<close>

text \<open>
  \<open>run failed q\<close> is one query sent to the store: the store fails it, or it runs.
\<close>

definition run :: "bool \<Rightarrow> error + 'a \<Rightarrow> error + 'a" where
  "run failed q = (if failed then Inl StoreError else q)"

text \<open>
  \<^verbatim>\<open>.limit(n).offset(m)\<close>, as the query builder sends it: a limit \<open>n \<ge> 0\<close> becomes
  \<^verbatim>\<open>LIMIT n\<close>, a negative limit is left out of the query (every row is returned); an
  offset other than zero becomes \<^verbatim>\<open>OFFSET m\<close>, and the store rejects a negative
  \<^verbatim>\<open>OFFSET\<close>.
\<close>

definition limit_offset :: "int \<Rightarrow> int \<Rightarrow> 'a list \<Rightarrow> error + 'a list" where
  "limit_offset n m rows =
     (if m < 0 then Inl StoreError
      else Inr (if n < 0 then drop (nat m) rows else take (nat n) (drop (nat m) rows)))"

definition limit :: "int \<Rightarrow> 'a list \<Rightarrow> error + 'a list" where
  "limit n rows = Inr (if n < 0 then rows else take (nat n) rows)"

text \<open>
  SQL \<^verbatim>\<open>LIKE\<close>, as the store evaluates it: in the pattern \<^verbatim>\<open>%\<close> stands for any
  sequence of characters, \<^verbatim>\<open>_\<close> for any one character, and a backslash makes the
  character after it literal. A pattern that ends in a lone backslash is no pattern
  (the store raises); the patterns this module builds end in \<^verbatim>\<open>%\<close> (and \<^verbatim>\<open>LOWER\<close>
  keeps it there), so that \<open>like\<close> answers false there without loss (lemma
  \<open>like_parse_wrapped\<close> below).
\<close>

datatype like_tok = AnySeq | AnyChar | Lit char

fun like_parse :: "string \<Rightarrow> like_tok list option" where
  "like_parse [] = Some []"
| "like_parse (c # cs) =
     (if c = CHR ''%'' then map_option (Cons AnySeq) (like_parse cs)
      else if c = CHR ''_'' then map_option (Cons AnyChar) (like_parse cs)
      else if c = CHR 0x5C then
        (case cs of
           [] \<Rightarrow> None
         | d # ds \<Rightarrow> map_option (Cons (Lit d)) (like_parse ds))
      else map_option (Cons (Lit c)) (like_parse cs))"

fun like_toks :: "like_tok list \<Rightarrow> string \<Rightarrow> bool" where
  "like_toks [] s = (s = [])"
| "like_toks (Lit c # ts) [] = False"
| "like_toks (Lit c # ts) (d # ds) = (c = d \<and> like_toks ts ds)"
| "like_toks (AnyChar # ts) [] = False"
| "like_toks (AnyChar # ts) (d # ds) = like_toks ts ds"
| "like_toks (AnySeq # ts) [] = like_toks ts []"
| "like_toks (AnySeq # ts) (d # ds) = (like_toks ts (d # ds) \<or> like_toks (AnySeq # ts) ds)"

definition like :: "string \<Rightarrow> string \<Rightarrow> bool" where
  "like s pattern = (case like_parse pattern of None \<Rightarrow> False | Some ts \<Rightarrow> like_toks ts s)"

text \<open>A search string in which no character has a meaning of its own in a pattern.\<close>

definition no_wildcards :: "string \<Rightarrow> bool" where
  "no_wildcards q = (\<forall>c \<in> set q. c \<noteq> CHR ''%'' \<and> c \<noteq> CHR ''_'' \<and> c \<noteq> CHR 0x5C)"

text \<open>
  SQL \<^verbatim>\<open>LOWER\<close> is the store's: which letters it folds depends on the store's
  locale, so the functions that use it take it as the argument \<open>lower\<close>. What is
  known of it, for any locale: it leaves a \<^verbatim>\<open>%\<close> at either end of a string in place,
  and it brings no wildcard into a string that has none.
\<close>

definition case_folding :: "(string \<Rightarrow> string) \<Rightarrow> bool" where
  "case_folding lower \<longleftrightarrow>
     (\<forall>s. lower (CHR ''%'' # s) = CHR ''%'' # lower s)
     \<and> (\<forall>s. lower (s @ [CHR ''%'']) = lower s @ [CHR ''%''])
     \<and> (\<forall>s. no_wildcards s \<longrightarrow> no_wildcards (lower s))"

text \<open>
  One such function, used on the sample stores: the folding of the letters A to Z,
  every other character kept.
\<close>

definition lower_ascii_char :: "char \<Rightarrow> char" where
  "lower_ascii_char c =
     (case map_of (zip ''ABCDEFGHIJKLMNOPQRSTUVWXYZ'' ''abcdefghijklmnopqrstuvwxyz'') c of
        None \<Rightarrow> c
      | Some d \<Rightarrow> d)"

definition lower_ascii :: "string \<Rightarrow> string" where
  "lower_ascii s = map lower_ascii_char s"

text \<open>
  \<^verbatim>\<open>.where(clause)\<close>; \<^verbatim>\<open>.where(undefined)\<close> keeps every row.
\<close>

definition where_rows :: "('a \<Rightarrow> bool) option \<Rightarrow> 'a list \<Rightarrow> 'a list" where
  "where_rows clause rows = (case clause of None \<Rightarrow> rows | Some P \<Rightarrow> filter P rows)"

text \<open>
  The columns of \<^verbatim>\<open>books\<close>, and \<^verbatim>\<open>books[sortField]\<close>: a string that names no column
  gives no column.
\<close>

datatype column =
  Col_id | Col_isbn | Col_title | Col_author | Col_genre
  | Col_totalCopies | Col_availableCopies | Col_cover

definition books_column :: "string \<Rightarrow> column option" where
  "books_column sortField =
     (if sortField = ''id'' then Some Col_id
      else if sortField = ''isbn'' then Some Col_isbn
      else if sortField = ''title'' then Some Col_title
      else if sortField = ''author'' then Some Col_author
      else if sortField = ''genre'' then Some Col_genre
      else if sortField = ''totalCopies'' then Some Col_totalCopies
      else if sortField = ''availableCopies'' then Some Col_availableCopies
      else if sortField = ''cover'' then Some Col_cover
      else None)"

text \<open>
  \<^verbatim>\<open>books[sortField]\<close> is a lookup on the table object. The object has the eight
  columns and, besides, the properties of the query builder's table class, which are no
  columns (the schema module and the query builder are not part of the sources):
  \<open>props\<close> says for which further names the lookup gives a value that the query is sent
  with, as a constant on which the store orders nothing. For every other name the
  \<^verbatim>\<open>ORDER BY\<close> has no expression the store accepts (\<^verbatim>\<open>undefined\<close> gives none).
\<close>

datatype order_target = Column column | NoColumn

definition books_lookup :: "(string \<Rightarrow> bool) \<Rightarrow> string \<Rightarrow> order_target option" where
  "books_lookup props sortField =
     (case books_column sortField of
        Some c \<Rightarrow> Some (Column c)
      | None \<Rightarrow> if props sortField then Some NoColumn else None)"

text \<open>
  \<^verbatim>\<open>ORDER BY\<close> on one column: integers by value, strings character by character. SQL
  leaves the order of rows with equal values open, and the store may settle it
  differently in every query: \<open>tie\<close> ranks the rows as the store happens to hold them
  for the query at hand, and rows with equal values come out in the order of their
  ranks (in the reverse order for \<^verbatim>\<open>DESC\<close>). Ordering on what is no column orders
  nothing: the rows come out as the store holds them.
\<close>

definition sort_column :: "(book \<Rightarrow> nat) \<Rightarrow> column \<Rightarrow> book list \<Rightarrow> book list" where
  "sort_column tie c rows =
     (case c of
        Col_id \<Rightarrow> sort_key book_id (sort_key tie rows)
      | Col_isbn \<Rightarrow> sort_key isbn (sort_key tie rows)
      | Col_title \<Rightarrow> sort_key title (sort_key tie rows)
      | Col_author \<Rightarrow> sort_key author (sort_key tie rows)
      | Col_genre \<Rightarrow> sort_key genre (sort_key tie rows)
      | Col_totalCopies \<Rightarrow> sort_key totalCopies (sort_key tie rows)
      | Col_availableCopies \<Rightarrow> sort_key availableCopies (sort_key tie rows)
      | Col_cover \<Rightarrow> sort_key cover (sort_key tie rows))"

datatype order_by = Asc order_target | Desc order_target

definition orderBy :: "(book \<Rightarrow> nat) \<Rightarrow> order_by \<Rightarrow> book list \<Rightarrow> book list" where
  "orderBy tie clause rows =
     (case clause of
        Asc (Column c) \<Rightarrow> sort_column tie c rows
      | Asc NoColumn \<Rightarrow> sort_key tie rows
      | Desc (Column c) \<Rightarrow> rev (sort_column tie c rows)
      | Desc NoColumn \<Rightarrow> sort_key tie rows)"

text \<open>
  \<^verbatim>\<open>Math.ceil(a / b)\<close> on integers (a negative zero is the integer 0).
\<close>

definition js_ceil_div :: "int \<Rightarrow> int \<Rightarrow> jsnum" where
  "js_ceil_div a b =
     (if b = 0 then (if a = 0 then NaN else if 0 < a then Infinity else NegInfinity)
      else Num (- ((- a) div b)))"

text \<open>
  The result of a statement without \<^verbatim>\<open>.returning()\<close>: the driver's raw result, whose
  \<open>rows\<close> are empty.
\<close>

record 'a query_result =
  command :: string
  rowCount :: int
  rows :: "'a list"

text \<open>
  \<^verbatim>\<open>db.insert(books).values(book)\<close>: the store draws the next \<^verbatim>\<open>id\<close> from the
  sequence and appends the row; an \<^verbatim>\<open>id\<close> that is already taken violates the key and
  the insert fails (the sequence has advanced all the same).
\<close>

definition insert_books :: "book_insert \<Rightarrow> store \<Rightarrow> (error + book query_result) \<times> store" where
  "insert_books v db =
     (let i = books_id_seq db + 1 in
      if i \<in> set (map book_id (books_rows db))
      then (Inl StoreError, db\<lparr>books_id_seq := i\<rparr>)
      else (Inr \<lparr>command = ''INSERT'', rowCount = 1, rows = []\<rparr>,
            db\<lparr>books_rows := books_rows db @
                  [\<lparr>isbn = isbn v, title = title v, author = author v, genre = genre v,
                    totalCopies = totalCopies v, availableCopies = availableCopies v,
                    cover = cover v, book_id = i\<rparr>],
               books_id_seq := i\<rparr>))"

subsection \<open>Title operations\<close>

text \<open>
  \<^verbatim>\<open>createBooks\<close> (lines 8 to 26): builds the insert value, awaits the insert (no
  \<^verbatim>\<open>.returning()\<close>) and returns its result; the \<^verbatim>\<open>catch\<close> block logs and throws again.
\<close>

definition createBooks ::
  "faults \<Rightarrow> store \<Rightarrow> string \<Rightarrow> string \<Rightarrow> string \<Rightarrow> string \<Rightarrow> int \<Rightarrow> int \<Rightarrow> string
     \<Rightarrow> (error + book query_result) \<times> store" where
  "createBooks flt db isbn' title' author' genre' totalCopies' availableCopies' cover' =
     (let book = \<lparr>isbn = isbn', title = title', author = author', genre = genre',
                  totalCopies = totalCopies', availableCopies = availableCopies',
                  cover = cover'\<rparr>
      in if flt 0 then (Inl StoreError, db) else insert_books book db)"

text \<open>The value \<^verbatim>\<open>readBooks\<close> returns.\<close>

record page_result =
  books :: "book list"
  totalBooks :: int
  totalPages :: jsnum

text \<open>
  \<^verbatim>\<open>readBooks\<close> (lines 28 to 69). The row query and the count query are sent
  together (\<^verbatim>\<open>Promise.all\<close>); the call is rejected when either is. A \<^verbatim>\<open>sortField\<close>
  that the table object does not have leaves the \<^verbatim>\<open>ORDER BY\<close> without an expression,
  which the store rejects. There is no \<^verbatim>\<open>try\<close> in this function. \<open>totalBooks\<close> is the
  value of the count (the driver may hand it over as a string of digits, and the
  function passes it on as it is).
\<close>

definition whereClause :: "string \<Rightarrow> (book \<Rightarrow> bool) option" where
  "whereClause searchQuery =
     (let searchPattern = ''%'' @ searchQuery @ ''%'' in
      if searchQuery \<noteq> []
      then Some (\<lambda>b. like (title b) searchPattern
                     \<or> like (author b) searchPattern
                     \<or> like (isbn b) searchPattern)
      else None)"

definition orderByClause :: "(string \<Rightarrow> bool) \<Rightarrow> string \<Rightarrow> string \<Rightarrow> order_by option" where
  "orderByClause props sortField sortOrder =
     (if sortOrder = ''desc''
      then map_option Desc (books_lookup props sortField)
      else map_option Asc (books_lookup props sortField))"

definition readBooks ::
  "faults \<Rightarrow> (book \<Rightarrow> nat) \<Rightarrow> (string \<Rightarrow> bool) \<Rightarrow> store
     \<Rightarrow> int \<Rightarrow> int \<Rightarrow> string \<Rightarrow> string \<Rightarrow> string \<Rightarrow> error + page_result" where
  "readBooks flt tie props db page pageSize sortField sortOrder searchQuery =
     (let offset = (page - 1) * pageSize in
      case run (flt 0)
             (case orderByClause props sortField sortOrder of
                None \<Rightarrow> Inl StoreError
              | Some clause \<Rightarrow>
                  limit_offset pageSize offset
                    (orderBy tie clause
                       (where_rows (whereClause searchQuery) (books_rows db)))) of
        Inl e \<Rightarrow> Inl e
      | Inr booksList \<Rightarrow>
          (case run (flt 1)
                  (Inr (int (length (where_rows (whereClause searchQuery) (books_rows db))))) of
             Inl e \<Rightarrow> Inl e
           | Inr total_count \<Rightarrow>
               Inr \<lparr>books = booksList, totalBooks = total_count,
                    totalPages = js_ceil_div total_count pageSize\<rparr>))"

text \<open>
  \<^verbatim>\<open>updateBooks\<close> (lines 71 to 84): sets the two counts of the rows with the given
  \<^verbatim>\<open>id\<close>, \<^verbatim>\<open>.returning()\<close> the rows as updated, and returns the first of them
  (\<^verbatim>\<open>undefined\<close> when there is none); the \<^verbatim>\<open>catch\<close> block returns \<^verbatim>\<open>null\<close>.
\<close>

definition updateBooks :: "faults \<Rightarrow> store \<Rightarrow> int \<Rightarrow> int \<Rightarrow> int \<Rightarrow> book jsval \<times> store" where
  "updateBooks flt db i totalCopies' availableCopies' =
     (let set_counts = (\<lambda>b. b\<lparr>totalCopies := totalCopies', availableCopies := availableCopies'\<rparr>);
          rows' = map (\<lambda>b. if book_id b = i then set_counts b else b) (books_rows db)
      in case run (flt 0) (Inr (filter (\<lambda>b. book_id b = i) rows', db\<lparr>books_rows := rows'\<rparr>)) of
           Inl e \<Rightarrow> (Null, db)
         | Inr (updatedBook, db') \<Rightarrow>
             ((case updatedBook of [] \<Rightarrow> Undefined | b # _ \<Rightarrow> Obj b), db'))"

text \<open>
  \<^verbatim>\<open>fetchLimitedBooks\<close> (lines 95 to 103): the \<^verbatim>\<open>catch\<close> block returns \<^verbatim>\<open>[]\<close>.
\<close>

definition fetchLimitedBooks :: "faults \<Rightarrow> (book \<Rightarrow> nat) \<Rightarrow> store \<Rightarrow> int \<Rightarrow> book list" where
  "fetchLimitedBooks flt tie db n =
     (case run (flt 0) (limit n (orderBy tie (Desc (Column Col_id)) (books_rows db))) of
        Inl e \<Rightarrow> []
      | Inr booksData \<Rightarrow> booksData)"

text \<open>
  \<^verbatim>\<open>fetchBookById\<close> (lines 105 to 109): no \<^verbatim>\<open>try\<close>; \<^verbatim>\<open>result[0] || null\<close>.
\<close>

definition fetchBookById :: "faults \<Rightarrow> store \<Rightarrow> int \<Rightarrow> error + book jsval" where
  "fetchBookById flt db i =
     (case run (flt 0) (limit 1 (filter (\<lambda>b. book_id b = i) (books_rows db))) of
        Inl e \<Rightarrow> Inl e
      | Inr result \<Rightarrow> Inr (case result of [] \<Rightarrow> Null | b # _ \<Rightarrow> Obj b))"

text \<open>
  \<^verbatim>\<open>fetchBooksByQuery\<close> (lines 203 to 247): both queries filter with
  \<^verbatim>\<open>LOWER(column) LIKE LOWER(pattern)\<close> on four columns; the \<^verbatim>\<open>catch\<close> block returns
  the empty result.
\<close>

record search_result = page_result +
  currentPage :: int

definition query_clause :: "(string \<Rightarrow> string) \<Rightarrow> string \<Rightarrow> book \<Rightarrow> bool" where
  "query_clause lower query b =
     (let pattern = lower (''%'' @ query @ ''%'') in
      like (lower (title b)) pattern \<or> like (lower (author b)) pattern
      \<or> like (lower (isbn b)) pattern \<or> like (lower (genre b)) pattern)"

definition fetchBooksByQuery ::
  "faults \<Rightarrow> (book \<Rightarrow> nat) \<Rightarrow> (string \<Rightarrow> string) \<Rightarrow> store
     \<Rightarrow> string \<Rightarrow> int \<Rightarrow> int \<Rightarrow> search_result" where
  "fetchBooksByQuery flt tie lower db query page pageSize =
     (let offset = (page - 1) * pageSize;
          failed = \<lparr>books = [], totalBooks = 0, totalPages = Num 0, currentPage = page\<rparr>
      in case run (flt 0)
                (limit_offset pageSize offset
                   (orderBy tie (Desc (Column Col_id))
                      (filter (query_clause lower query) (books_rows db)))) of
           Inl e \<Rightarrow> failed
         | Inr searchResults \<Rightarrow>
             (case run (flt 1)
                     (Inr (int (length (filter (query_clause lower query) (books_rows db))))) of
                Inl e \<Rightarrow> failed
              | Inr totalCount \<Rightarrow>
                  \<lparr>books = searchResults, totalBooks = totalCount,
                   totalPages = js_ceil_div totalCount pageSize, currentPage = page\<rparr>))"

text \<open>
  \<^verbatim>\<open>readSingleBook\<close> (lines 249 to 273): the title row first, \<^verbatim>\<open>null\<close> when there
  is none; then the count of the copies of the title that are not borrowed; the
  \<^verbatim>\<open>catch\<close> block logs and throws again.
\<close>

definition readSingleBook :: "faults \<Rightarrow> store \<Rightarrow> int \<Rightarrow> error + book_available jsval" where
  "readSingleBook flt db i =
     (case run (flt 0) (limit 1 (filter (\<lambda>b. book_id b = i) (books_rows db))) of
        Inl e \<Rightarrow> Inl e
      | Inr book \<Rightarrow>
          if length book = 0 then Inr Null
          else
            (case run (flt 1)
                    (Inr (int (length (filter (\<lambda>c. bookId c = i \<and> borrowed c = False)
                                         (physicalBooks_rows db))))) of
               Inl e \<Rightarrow> Inl e
             | Inr availableCount \<Rightarrow>
                 Inr (Obj (book.extend (book ! 0)
                             (book_available.fields availableCount)))))"

subsection \<open>Copy operations\<close>

text \<open>
  \<^verbatim>\<open>deletePhysicalBook\<close> (lines 111 to 131): select the row by \<^verbatim>\<open>pid\<close> with
  \<^verbatim>\<open>limit(1)\<close>, throw when there is none or when it is borrowed, delete otherwise. The
  \<^verbatim>\<open>catch\<close> block logs and throws the same error again.
\<close>

definition deletePhysicalBook :: "faults \<Rightarrow> store \<Rightarrow> int \<Rightarrow> (error + bool) \<times> store" where
  "deletePhysicalBook flt db p =
     (case run (flt 0) (limit 1 (filter (\<lambda>r. pid r = p) (physicalBooks_rows db))) of
        Inl e \<Rightarrow> (Inl e, db)
      | Inr physicalBook \<Rightarrow>
          if length physicalBook = 0 then (Inl (Error ''Physical book not found''), db)
          else if borrowed (physicalBook ! 0) then (Inl (Error ''Cannot remove a borrowed book''), db)
          else
            (case run (flt 1)
                    (Inr (db\<lparr>physicalBooks_rows :=
                               filter (\<lambda>r. pid r \<noteq> p) (physicalBooks_rows db)\<rparr>)) of
               Inl e \<Rightarrow> (Inl e, db)
             | Inr db' \<Rightarrow> (Inr True, db')))"

subsection \<open>The rows of one page\<close>


subsection \<open>Order on a column\<close>

text \<open>The rows are in ascending order of the given column.\<close>

definition ascending :: "column \<Rightarrow> book list \<Rightarrow> bool" where
  "ascending c bs =
     (case c of
        Col_id \<Rightarrow> sorted (map book_id bs)
      | Col_isbn \<Rightarrow> sorted (map isbn bs)
      | Col_title \<Rightarrow> sorted (map title bs)
      | Col_author \<Rightarrow> sorted (map author bs)
      | Col_genre \<Rightarrow> sorted (map genre bs)
      | Col_totalCopies \<Rightarrow> sorted (map totalCopies bs)
      | Col_availableCopies \<Rightarrow> sorted (map availableCopies bs)
      | Col_cover \<Rightarrow> sorted (map cover bs))"


subsection \<open>Sample stores\<close>

text \<open>Concrete rows and stores, on which the theorems below are instantiated.\<close>

definition copy1 :: physicalBook where
  "copy1 = \<lparr>pid = 1, bookId = 1, borrowed = True, returnDate = Some ''2025-01-01'',
             userId = Some ''u1'', currTransactionId = Some 7\<rparr>"

definition copy2 :: physicalBook where
  "copy2 = \<lparr>pid = 2, bookId = 1, borrowed = False, returnDate = None,
             userId = None, currTransactionId = None\<rparr>"

definition store1 :: store where
  "store1 = \<lparr>books_rows = [], physicalBooks_rows = [copy1, copy2], books_id_seq = 0\<rparr>"

definition book1 :: book where
  "book1 = \<lparr>isbn = ''111'', title = ''Dune'', author = ''Herbert'', genre = ''SciFi'',
             totalCopies = 3, availableCopies = 5, cover = ''dune.png'', book_id = 1\<rparr>"

definition book2 :: book where
  "book2 = \<lparr>isbn = ''222'', title = ''Emma'', author = ''Austen'', genre = ''Novel'',
             totalCopies = 1, availableCopies = 1, cover = ''emma.png'', book_id = 2\<rparr>"

definition copy3 :: physicalBook where
  "copy3 = \<lparr>pid = 3, bookId = 1, borrowed = False, returnDate = None,
             userId = None, currTransactionId = None\<rparr>"

definition store2 :: store where
  "store2 = \<lparr>books_rows = [book1, book2], physicalBooks_rows = [copy1, copy2, copy3],
              books_id_seq = 2\<rparr>"

definition book3 :: book where
  "book3 = \<lparr>isbn = ''333'', title = ''Ulysses'', author = ''Joyce'', genre = ''Novel'',
             totalCopies = 2, availableCopies = 2, cover = ''u.png'', book_id = 3\<rparr>"

definition store3 :: store where
  "store3 = \<lparr>books_rows = [book2, book3, book1], physicalBooks_rows = [copy1, copy2, copy3],
              books_id_seq = 3\<rparr>"

text \<open>
  Two ways the store may hold the rows for a query (by \<open>id\<close>, and the other way round),
  a store that holds them the first way for the query of every page but the second, and
  a table object without further properties.
\<close>

definition by_id :: "book \<Rightarrow> nat" where
  "by_id b = nat (book_id b)"



definition no_props :: "string \<Rightarrow> bool" where
  "no_props name = False"

section \<open>Properties\<close>

subsection \<open>The sample rows\<close>

lemma sample_fields:
  "title book1 = ''Dune''" "author book1 = ''Herbert''" "isbn book1 = ''111''" "genre book1 = ''SciFi''"
  "title book2 = ''Emma''" "author book2 = ''Austen''" "isbn book2 = ''222''" "genre book2 = ''Novel''"
  "title book3 = ''Ulysses''" "author book3 = ''Joyce''" "isbn book3 = ''333''" "genre book3 = ''Novel''"
  "book_id book1 = 1" "book_id book2 = 2" "book_id book3 = 3"
  by (simp_all add: book1_def book2_def book3_def)

subsection \<open>Patterns without wildcards\<close>

text \<open>
  A pattern \<^verbatim>\<open>%q%\<close> always parses; when \<open>q\<close> has no wildcard, matching it is
  containing \<open>q\<close> as a contiguous substring.
\<close>

lemma like_parse_plain:
  "no_wildcards q \<Longrightarrow> like_parse (q @ r) = map_option ((@) (map Lit q)) (like_parse r)"
proof (induction q)
  case Nil
  show ?case by (simp add: option.map_ident)
next
  case (Cons c cs)
  then have "c \<noteq> CHR ''%''" "c \<noteq> CHR ''_''" "c \<noteq> CHR 0x5C" "no_wildcards cs"
    by (simp_all add: no_wildcards_def)
  with Cons.IH show ?case by (simp add: option.map_comp comp_def)
qed

lemma like_parse_pattern:
  "no_wildcards q \<Longrightarrow> like_parse (''%'' @ q @ ''%'') = Some (AnySeq # map Lit q @ [AnySeq])"
  using like_parse_plain [of q "''%''"] by simp

lemma like_parse_ends_percent: "like_parse (q @ ''%'') \<noteq> None"
proof (induction q rule: like_parse.induct)
  case 1
  show ?case by simp
next
  case (2 c cs)
  show ?case
  proof (cases "c = CHR ''%'' \<or> c = CHR ''_''")
    case True
    with 2 show ?thesis by auto
  next
    case False
    show ?thesis
    proof (cases "c = CHR 0x5C")
      case True
      with False 2 show ?thesis by (cases cs) auto
    next
      case False
      with \<open>\<not> (c = CHR ''%'' \<or> c = CHR ''_'')\<close> 2 show ?thesis by auto
    qed
  qed
qed

lemma like_parse_wrapped: "like_parse (''%'' @ q @ ''%'') \<noteq> None"
  using like_parse_ends_percent [of q] by simp

lemma like_toks_AnySeq [simp]: "like_toks [AnySeq] s"
  by (induction s) auto

lemma like_toks_prefix: "like_toks (map Lit q @ [AnySeq]) s \<longleftrightarrow> prefix q s"
proof (induction q arbitrary: s)
  case Nil
  show ?case by simp
next
  case (Cons c cs)
  show ?case by (cases s) (auto simp: Cons.IH)
qed

lemma like_toks_sublist: "like_toks (AnySeq # map Lit q @ [AnySeq]) s \<longleftrightarrow> sublist q s"
proof (induction s)
  case Nil
  show ?case by (cases q) (simp_all add: like_toks_prefix)
next
  case (Cons d ds)
  have "like_toks (AnySeq # map Lit q @ [AnySeq]) (d # ds)
          \<longleftrightarrow> prefix q (d # ds) \<or> like_toks (AnySeq # map Lit q @ [AnySeq]) ds"
    by (simp add: like_toks_prefix)
  with Cons.IH show ?case by (simp add: sublist_Cons_right)
qed

lemma like_substring:
  "no_wildcards q \<Longrightarrow> like s (''%'' @ q @ ''%'') \<longleftrightarrow> sublist q s"
  unfolding like_def by (simp only: like_parse_pattern option.case like_toks_sublist)

lemma like_folded_substring:
  assumes "case_folding lower" and "no_wildcards q"
  shows "like (lower s) (lower (''%'' @ q @ ''%'')) \<longleftrightarrow> sublist (lower q) (lower s)"
proof -
  from assms(1) have "lower (CHR ''%'' # (q @ [CHR ''%''])) = CHR ''%'' # lower (q @ [CHR ''%''])"
    unfolding case_folding_def by blast
  moreover from assms(1) have "lower (q @ [CHR ''%'']) = lower q @ [CHR ''%'']"
    unfolding case_folding_def by blast
  ultimately have p: "lower (''%'' @ q @ ''%'') = ''%'' @ lower q @ ''%''"
    by simp
  from assms have "no_wildcards (lower q)"
    unfolding case_folding_def by blast
  then show ?thesis
    unfolding p by (rule like_substring)
qed

lemma lower_ascii_char_wildcard:
  "lower_ascii_char c = CHR ''%'' \<longleftrightarrow> c = CHR ''%''"
  "lower_ascii_char c = CHR ''_'' \<longleftrightarrow> c = CHR ''_''"
  "lower_ascii_char c = CHR 0x5C \<longleftrightarrow> c = CHR 0x5C"
  by (auto simp: lower_ascii_char_def)

lemma case_folding_ascii: "case_folding lower_ascii"
  unfolding case_folding_def
proof (intro conjI allI impI)
  fix s
  show "lower_ascii (CHR ''%'' # s) = CHR ''%'' # lower_ascii s"
    by (simp add: lower_ascii_def lower_ascii_char_def)
  show "lower_ascii (s @ [CHR ''%'']) = lower_ascii s @ [CHR ''%'']"
    by (simp add: lower_ascii_def lower_ascii_char_def)
  assume "no_wildcards s"
  then show "no_wildcards (lower_ascii s)"
    by (simp add: no_wildcards_def lower_ascii_def lower_ascii_char_wildcard)
qed

subsection \<open>Ordered rows\<close>

lemma mset_sort_column: "mset (sort_column tie c bs) = mset bs"
  by (cases c) (simp_all add: sort_column_def)

lemma mset_orderBy: "mset (orderBy tie clause bs) = mset bs"
proof (cases clause)
  case (Asc t)
  then show ?thesis by (cases t) (simp_all add: orderBy_def mset_sort_column)
next
  case (Desc t)
  then show ?thesis by (cases t) (simp_all add: orderBy_def mset_sort_column)
qed

lemma sorted_desc_slice:
  assumes "sorted (rev (map f xs))"
  shows "sorted (rev (map f (take n (drop m xs))))"
proof -
  from assms have "sorted_wrt (\<lambda>x y. f y \<le> f x) xs"
    by (simp add: rev_map sorted_wrt_rev sorted_map)
  then have "sorted_wrt (\<lambda>x y. f y \<le> f x) (take n (drop m xs))"
    by (simp add: sorted_wrt_take sorted_wrt_drop)
  then show ?thesis
    by (simp add: rev_map sorted_wrt_rev sorted_map)
qed

lemma orderBy_desc_id: "sorted (rev (map book_id (orderBy tie (Desc (Column Col_id)) bs)))"
  by (simp add: orderBy_def sort_column_def rev_map)





subsection \<open>Rows under a key\<close>

lemma filter_key_unique:
  "distinct (map f xs) \<Longrightarrow> x \<in> set xs \<Longrightarrow> filter (\<lambda>r. f r = f x) xs = [x]"
proof (induction xs)
  case Nil
  then show ?case by simp
next
  case (Cons y ys)
  show ?case
  proof (cases "y = x")
    case True
    with Cons.prems have "f x \<notin> f ` set ys" by simp
    then have "filter (\<lambda>r. f r = f x) ys = []"
      by (auto simp: filter_empty_conv) (metis imageI)
    with True show ?thesis by simp
  next
    case False
    with Cons.prems have "x \<in> set ys" "f y \<noteq> f x" by auto
    with Cons show ?thesis by simp
  qed
qed

lemma filter_key_removeAll:
  "distinct (map f xs) \<Longrightarrow> x \<in> set xs \<Longrightarrow> filter (\<lambda>r. f r \<noteq> f x) xs = removeAll x xs"
proof (induction xs)
  case Nil
  then show ?case by simp
next
  case (Cons y ys)
  show ?case
  proof (cases "y = x")
    case True
    with Cons.prems have "f x \<notin> f ` set ys" by simp
    then have "filter (\<lambda>r. f r \<noteq> f x) ys = ys" "x \<notin> set ys"
      by (auto simp: filter_id_conv) (metis imageI)
    with True show ?thesis by simp
  next
    case False
    with Cons.prems have "x \<in> set ys" "f y \<noteq> f x" by auto
    with Cons False show ?thesis by simp
  qed
qed

subsection \<open>The guarded delete of a Copy\<close>

text \<open>
  C1. Deleting a Copy by \<open>pid\<close>, the \<open>pid\<close> being the key of the table. When the fetch
  is answered and no row has the \<open>pid\<close>, the call fails with the not-found error
  (\<^verbatim>\<open>Physical book not found\<close>). When the row with the \<open>pid\<close> is borrowed, the call
  fails with the invalid-state error (\<^verbatim>\<open>Cannot remove a borrowed book\<close>) and the store
  is as before, so the row is still there. When the row is not borrowed and the delete is
  answered too, the call returns true, that row is removed and no row with the \<open>pid\<close>
  is left.
\<close>

theorem deletePhysicalBook_guard:
  assumes "distinct (map pid (physicalBooks_rows db))" and "\<not> flt 0"
  shows "((\<forall>c \<in> set (physicalBooks_rows db). pid c \<noteq> p) \<longrightarrow>
            deletePhysicalBook flt db p = (Inl (Error ''Physical book not found''), db))
       \<and> (\<forall>c \<in> set (physicalBooks_rows db). pid c = p \<and> borrowed c \<longrightarrow>
            deletePhysicalBook flt db p = (Inl (Error ''Cannot remove a borrowed book''), db)
            \<and> c \<in> set (physicalBooks_rows (snd (deletePhysicalBook flt db p))))
       \<and> (\<forall>c \<in> set (physicalBooks_rows db). pid c = p \<and> \<not> borrowed c \<and> \<not> flt 1 \<longrightarrow>
            deletePhysicalBook flt db p
              = (Inr True, db\<lparr>physicalBooks_rows := removeAll c (physicalBooks_rows db)\<rparr>)
            \<and> (\<forall>r \<in> set (physicalBooks_rows (snd (deletePhysicalBook flt db p))). pid r \<noteq> p))"
proof -
  let ?rows = "physicalBooks_rows db"
  have absent: "deletePhysicalBook flt db p = (Inl (Error ''Physical book not found''), db)"
    if "\<forall>c \<in> set ?rows. pid c \<noteq> p"
  proof -
    from that have "filter (\<lambda>r. pid r = p) ?rows = []"
      by (simp add: filter_empty_conv)
    with assms(2) show ?thesis
      by (simp add: deletePhysicalBook_def run_def limit_def)
  qed
  have sel: "filter (\<lambda>r. pid r = p) ?rows = [c]" if "c \<in> set ?rows" "pid c = p" for c
    using filter_key_unique [OF assms(1) that(1)] that(2) by simp
  have held: "deletePhysicalBook flt db p = (Inl (Error ''Cannot remove a borrowed book''), db)"
    if "c \<in> set ?rows" "pid c = p" "borrowed c" for c
    using assms(2) sel [OF that(1,2)] that(3)
    by (simp add: deletePhysicalBook_def run_def limit_def)
  have del: "filter (\<lambda>r. pid r \<noteq> p) ?rows = removeAll c ?rows"
    if "c \<in> set ?rows" "pid c = p" for c
    using filter_key_removeAll [OF assms(1) that(1)] that(2) by simp
  have gone: "deletePhysicalBook flt db p = (Inr True, db\<lparr>physicalBooks_rows := removeAll c ?rows\<rparr>)"
    if "c \<in> set ?rows" "pid c = p" "\<not> borrowed c" "\<not> flt 1" for c
    using assms(2) sel [OF that(1,2)] del [OF that(1,2)] that(3,4)
    by (simp add: deletePhysicalBook_def run_def limit_def)
  have none_left: "\<forall>r \<in> set (removeAll c ?rows). pid r \<noteq> p"
    if "c \<in> set ?rows" "pid c = p" for c
    using del [OF that, symmetric] by simp
  have A: "(\<forall>c \<in> set ?rows. pid c \<noteq> p) \<longrightarrow>
             deletePhysicalBook flt db p = (Inl (Error ''Physical book not found''), db)"
    using absent by (rule impI)
  have B: "\<forall>c \<in> set ?rows. pid c = p \<and> borrowed c \<longrightarrow>
             deletePhysicalBook flt db p = (Inl (Error ''Cannot remove a borrowed book''), db)
             \<and> c \<in> set (physicalBooks_rows (snd (deletePhysicalBook flt db p)))"
  proof (intro ballI impI)
    fix c assume c: "c \<in> set ?rows" and h: "pid c = p \<and> borrowed c"
    from h have "deletePhysicalBook flt db p = (Inl (Error ''Cannot remove a borrowed book''), db)"
      using held [OF c] by simp
    with c show "deletePhysicalBook flt db p = (Inl (Error ''Cannot remove a borrowed book''), db)
             \<and> c \<in> set (physicalBooks_rows (snd (deletePhysicalBook flt db p)))"
      by simp
  qed
  have C: "\<forall>c \<in> set ?rows. pid c = p \<and> \<not> borrowed c \<and> \<not> flt 1 \<longrightarrow>
            deletePhysicalBook flt db p
              = (Inr True, db\<lparr>physicalBooks_rows := removeAll c ?rows\<rparr>)
            \<and> (\<forall>r \<in> set (physicalBooks_rows (snd (deletePhysicalBook flt db p))). pid r \<noteq> p)"
  proof (intro ballI impI)
    fix c assume c: "c \<in> set ?rows" and h: "pid c = p \<and> \<not> borrowed c \<and> \<not> flt 1"
    from h have e: "deletePhysicalBook flt db p
                      = (Inr True, db\<lparr>physicalBooks_rows := removeAll c ?rows\<rparr>)"
      using gone [OF c] by simp
    from h have "\<forall>r \<in> set (removeAll c ?rows). pid r \<noteq> p"
      using none_left [OF c] by simp
    with e show "deletePhysicalBook flt db p
              = (Inr True, db\<lparr>physicalBooks_rows := removeAll c ?rows\<rparr>)
            \<and> (\<forall>r \<in> set (physicalBooks_rows (snd (deletePhysicalBook flt db p))). pid r \<noteq> p)"
      by simp
  qed
  show ?thesis
    by (rule conjI [OF A conjI [OF B C]])
qed

theorem deletePhysicalBook_guard_witness:
  "distinct (map pid (physicalBooks_rows store1)) \<and> \<not> no_faults 0 \<and> \<not> no_faults 1
   \<and> deletePhysicalBook no_faults store1 3 = (Inl (Error ''Physical book not found''), store1)
   \<and> copy1 \<in> set (physicalBooks_rows store1) \<and> pid copy1 = 1 \<and> borrowed copy1
   \<and> deletePhysicalBook no_faults store1 1 = (Inl (Error ''Cannot remove a borrowed book''), store1)
   \<and> copy2 \<in> set (physicalBooks_rows store1) \<and> pid copy2 = 2 \<and> \<not> borrowed copy2
   \<and> deletePhysicalBook no_faults store1 2 = (Inr True, store1\<lparr>physicalBooks_rows := [copy1]\<rparr>)"
proof -
  have d: "distinct (map pid (physicalBooks_rows store1))"
    by (simp add: store1_def copy1_def copy2_def)
  have f: "\<not> no_faults 0" "\<not> no_faults 1"
    by (simp_all add: no_faults_def)
  have rows: "physicalBooks_rows store1 = [copy1, copy2]"
    by (simp add: store1_def)
  have c1: "pid copy1 = 1" "borrowed copy1" and c2: "pid copy2 = 2" "\<not> borrowed copy2"
    and ne: "copy1 \<noteq> copy2"
    by (simp_all add: copy1_def copy2_def)
  from deletePhysicalBook_guard [where db = store1 and flt = no_faults and p = 3, OF d f(1), THEN conjunct1]
  have r3: "deletePhysicalBook no_faults store1 3 = (Inl (Error ''Physical book not found''), store1)"
    by (simp add: rows c1 c2)
  from deletePhysicalBook_guard [where db = store1 and flt = no_faults and p = 1, OF d f(1), THEN conjunct2, THEN conjunct1]
  have r1: "deletePhysicalBook no_faults store1 1
              = (Inl (Error ''Cannot remove a borrowed book''), store1)"
    by (simp add: rows c1 c2)
  from deletePhysicalBook_guard [where db = store1 and flt = no_faults and p = 2, OF d f(1), THEN conjunct2, THEN conjunct2] f(2) ne
  have r2: "deletePhysicalBook no_faults store1 2
              = (Inr True, store1\<lparr>physicalBooks_rows := [copy1]\<rparr>)"
    by (simp add: rows c1 c2)
  from d f rows c1 c2 r1 r2 r3 show ?thesis by simp
qed

subsection \<open>Single lookups\<close>

text \<open>
  C10. \<^verbatim>\<open>fetchBookById\<close> handles no error: a failure of the store query is the
  call's own failure. The call returns \<^verbatim>\<open>null\<close> exactly when the query is answered
  and no row has the \<open>id\<close>; when the query is answered and a row has the \<open>id\<close>, the
  call returns such a row.
\<close>

theorem fetchBookById_null_iff:
  "(flt 0 \<longrightarrow> fetchBookById flt db i = Inl StoreError)
   \<and> (fetchBookById flt db i = Inr Null
        \<longleftrightarrow> \<not> flt 0 \<and> (\<forall>b \<in> set (books_rows db). book_id b \<noteq> i))
   \<and> (\<not> flt 0 \<and> (\<exists>b \<in> set (books_rows db). book_id b = i) \<longrightarrow>
        (\<exists>b \<in> set (books_rows db). book_id b = i \<and> fetchBookById flt db i = Inr (Obj b)))"
proof -
  let ?sel = "filter (\<lambda>b. book_id b = i) (books_rows db)"
  have e: "fetchBookById flt db i =
             (if flt 0 then Inl StoreError
              else Inr (case ?sel of [] \<Rightarrow> Null | b # _ \<Rightarrow> Obj b))"
    by (cases ?sel) (simp_all add: fetchBookById_def run_def limit_def)
  have n: "?sel = [] \<longleftrightarrow> (\<forall>b \<in> set (books_rows db). book_id b \<noteq> i)"
    by (simp add: filter_empty_conv)
  have A: "flt 0 \<longrightarrow> fetchBookById flt db i = Inl StoreError"
    by (simp add: e)
  have B: "fetchBookById flt db i = Inr Null
        \<longleftrightarrow> \<not> flt 0 \<and> (\<forall>b \<in> set (books_rows db). book_id b \<noteq> i)"
    unfolding n [symmetric] by (cases ?sel) (simp_all add: e)
  have C: "\<not> flt 0 \<and> (\<exists>b \<in> set (books_rows db). book_id b = i) \<longrightarrow>
        (\<exists>b \<in> set (books_rows db). book_id b = i \<and> fetchBookById flt db i = Inr (Obj b))"
  proof
    assume h: "\<not> flt 0 \<and> (\<exists>b \<in> set (books_rows db). book_id b = i)"
    then have "?sel \<noteq> []" by (simp add: n)
    then obtain b bs where s: "?sel = b # bs" by (cases ?sel) auto
    then have "b \<in> set ?sel" by simp
    then have "b \<in> set (books_rows db)" "book_id b = i" by simp_all
    moreover from h s have "fetchBookById flt db i = Inr (Obj b)" by (simp add: e)
    ultimately show "\<exists>b \<in> set (books_rows db). book_id b = i \<and> fetchBookById flt db i = Inr (Obj b)"
      by blast
  qed
  show ?thesis by (rule conjI [OF A conjI [OF B C]])
qed

theorem fetchBookById_null_iff_witness:
  "fetchBookById no_faults store2 7 = Inr Null
   \<and> fetchBookById no_faults store2 2 = Inr (Obj book2)
   \<and> fetchBookById store_down store2 2 = Inl StoreError"
proof -
  have rows: "books_rows store2 = [book1, book2]" by (simp add: store2_def)
  have ids: "book_id book1 = 1" "book_id book2 = 2" by (simp_all add: book1_def book2_def)
  have f: "\<not> no_faults 0" by (simp add: no_faults_def)
  from fetchBookById_null_iff [where flt = no_faults and db = store2 and i = 7, THEN conjunct2, THEN conjunct1]
  have a: "fetchBookById no_faults store2 7 = Inr Null" by (simp add: rows ids f)
  from fetchBookById_null_iff [where flt = no_faults and db = store2 and i = 2, THEN conjunct2, THEN conjunct2]
  have b: "fetchBookById no_faults store2 2 = Inr (Obj book2)" by (simp add: rows ids f)
  from fetchBookById_null_iff [where flt = store_down and db = store2 and i = 2, THEN conjunct1]
  have c: "fetchBookById store_down store2 2 = Inl StoreError" by (simp add: store_down_def)
  from a b c show ?thesis by simp
qed

text \<open>
  C2. \<^verbatim>\<open>readSingleBook\<close>: a failure of the title query, or of the count query once
  a title is found, is raised; with no title of that \<open>id\<close> the result is \<^verbatim>\<open>null\<close>;
  otherwise the result is the title row, every field as stored (its own
  \<open>availableCopies\<close> included), with \<open>availableBooks\<close> the number of rows of
  \<^verbatim>\<open>physical_books\<close> whose \<open>bookId\<close> is the \<open>id\<close> and that are not borrowed.
\<close>

theorem readSingleBook_availability:
  "(flt 0 \<longrightarrow> readSingleBook flt db i = Inl StoreError)
   \<and> (\<not> flt 0 \<and> (\<forall>b \<in> set (books_rows db). book_id b \<noteq> i) \<longrightarrow>
        readSingleBook flt db i = Inr Null)
   \<and> (\<not> flt 0 \<and> (\<exists>b \<in> set (books_rows db). book_id b = i) \<and> flt 1 \<longrightarrow>
        readSingleBook flt db i = Inl StoreError)
   \<and> (\<not> flt 0 \<and> (\<exists>b \<in> set (books_rows db). book_id b = i) \<and> \<not> flt 1 \<longrightarrow>
        (\<exists>b \<in> set (books_rows db). \<exists>v. book_id b = i
           \<and> readSingleBook flt db i = Inr (Obj v)
           \<and> book.truncate v = b
           \<and> availableBooks v
               = int (length (filter (\<lambda>c. bookId c = i \<and> \<not> borrowed c) (physicalBooks_rows db)))))"
proof -
  let ?sel = "filter (\<lambda>b. book_id b = i) (books_rows db)"
  let ?n = "int (length (filter (\<lambda>c. bookId c = i \<and> \<not> borrowed c) (physicalBooks_rows db)))"
  have n: "?sel = [] \<longleftrightarrow> (\<forall>b \<in> set (books_rows db). book_id b \<noteq> i)"
    by (simp add: filter_empty_conv)
  have A: "flt 0 \<longrightarrow> readSingleBook flt db i = Inl StoreError"
    by (simp add: readSingleBook_def run_def)
  have B: "\<not> flt 0 \<and> (\<forall>b \<in> set (books_rows db). book_id b \<noteq> i) \<longrightarrow>
        readSingleBook flt db i = Inr Null"
  proof
    assume h: "\<not> flt 0 \<and> (\<forall>b \<in> set (books_rows db). book_id b \<noteq> i)"
    then have "?sel = []" by (simp add: n)
    with h show "readSingleBook flt db i = Inr Null"
      by (simp add: readSingleBook_def run_def limit_def)
  qed
  have sel: "\<exists>b bs. ?sel = b # bs \<and> b \<in> set (books_rows db) \<and> book_id b = i"
    if "\<exists>b \<in> set (books_rows db). book_id b = i"
  proof -
    from that have "?sel \<noteq> []" by (simp add: n)
    then obtain b bs where s: "?sel = b # bs" by (cases ?sel) auto
    then have "b \<in> set ?sel" by simp
    then have "b \<in> set (books_rows db) \<and> book_id b = i" by simp
    with s show ?thesis by blast
  qed
  have C: "\<not> flt 0 \<and> (\<exists>b \<in> set (books_rows db). book_id b = i) \<and> flt 1 \<longrightarrow>
        readSingleBook flt db i = Inl StoreError"
  proof
    assume h: "\<not> flt 0 \<and> (\<exists>b \<in> set (books_rows db). book_id b = i) \<and> flt 1"
    with sel obtain b bs where "?sel = b # bs" by blast
    with h show "readSingleBook flt db i = Inl StoreError"
      by (simp add: readSingleBook_def run_def limit_def)
  qed
  have D: "\<not> flt 0 \<and> (\<exists>b \<in> set (books_rows db). book_id b = i) \<and> \<not> flt 1 \<longrightarrow>
        (\<exists>b \<in> set (books_rows db). \<exists>v. book_id b = i
           \<and> readSingleBook flt db i = Inr (Obj v)
           \<and> book.truncate v = b \<and> availableBooks v = ?n)"
  proof
    assume h: "\<not> flt 0 \<and> (\<exists>b \<in> set (books_rows db). book_id b = i) \<and> \<not> flt 1"
    with sel obtain b bs where s: "?sel = b # bs" and b: "b \<in> set (books_rows db)" "book_id b = i"
      by blast
    let ?v = "book.extend b (book_available.fields ?n)"
    from h s have "readSingleBook flt db i = Inr (Obj ?v)"
      by (simp add: readSingleBook_def run_def limit_def)
    moreover have "book.truncate ?v = b"
      by (simp add: book.truncate_def book.extend_def book_available.fields_def)
    moreover have "availableBooks ?v = ?n"
      by (simp add: book.extend_def book_available.fields_def)
    ultimately show "\<exists>b \<in> set (books_rows db). \<exists>v. book_id b = i
           \<and> readSingleBook flt db i = Inr (Obj v)
           \<and> book.truncate v = b \<and> availableBooks v = ?n"
      using b by blast
  qed
  show ?thesis by (rule conjI [OF A conjI [OF B conjI [OF C D]]])
qed

theorem readSingleBook_availability_witness:
  "readSingleBook no_faults store2 7 = Inr Null
   \<and> readSingleBook store_down store2 1 = Inl StoreError
   \<and> readSingleBook count_fails store2 1 = Inl StoreError
   \<and> (\<exists>v. readSingleBook no_faults store2 1 = Inr (Obj v) \<and> book.truncate v = book1
          \<and> availableCopies v = 5 \<and> availableBooks v = 2)"
proof -
  have rows: "books_rows store2 = [book1, book2]"
    and copies: "physicalBooks_rows store2 = [copy1, copy2, copy3]"
    by (simp_all add: store2_def)
  have ids: "book_id book1 = 1" "book_id book2 = 2" "availableCopies book1 = 5"
    by (simp_all add: book1_def book2_def)
  have cs: "bookId copy1 = 1" "bookId copy2 = 1" "bookId copy3 = 1"
    "borrowed copy1" "\<not> borrowed copy2" "\<not> borrowed copy3"
    by (simp_all add: copy1_def copy2_def copy3_def)
  note f = no_faults_def store_down_def count_fails_def
  note t = readSingleBook_availability
  from t [where flt = no_faults and db = store2 and i = 7, THEN conjunct2, THEN conjunct1]
  have a: "readSingleBook no_faults store2 7 = Inr Null"
    by (simp add: rows ids f)
  from t [where flt = store_down and db = store2 and i = 1, THEN conjunct1]
  have b: "readSingleBook store_down store2 1 = Inl StoreError"
    by (simp add: f)
  from t [where flt = count_fails and db = store2 and i = 1, THEN conjunct2, THEN conjunct2, THEN conjunct1]
  have c: "readSingleBook count_fails store2 1 = Inl StoreError"
    by (simp add: rows ids f)
  from t [where flt = no_faults and db = store2 and i = 1, THEN conjunct2, THEN conjunct2, THEN conjunct2]
  have "\<exists>v. readSingleBook no_faults store2 1 = Inr (Obj v) \<and> book.truncate v = book1
          \<and> availableBooks v = 2"
    by (simp add: rows copies ids cs f)
  then obtain v where v: "readSingleBook no_faults store2 1 = Inr (Obj v)"
    "book.truncate v = book1" "availableBooks v = 2" by blast
  from v(2) have "availableCopies (book.truncate v) = 5" by (simp add: ids)
  then have "availableCopies v = 5" by (simp add: book.truncate_def)
  with a b c v show ?thesis by blast
qed

subsection \<open>The most recent titles\<close>

text \<open>
  C7. \<^verbatim>\<open>fetchLimitedBooks\<close>: when the store fails the query the result is the empty
  list, and nothing is raised. Whatever the limit, the result is the front of an
  arrangement of the whole table in descending order of \<open>id\<close> (the most recently created
  title first); and when the store answers a limit \<open>n \<ge> 0\<close>, the result has
  \<open>min n (number of titles)\<close> rows: these are the \<open>n\<close> titles of greatest \<open>id\<close>.
\<close>

theorem fetchLimitedBooks_recent:
  "(flt 0 \<longrightarrow> fetchLimitedBooks flt tie db n = [])
   \<and> (\<exists>rest. mset (fetchLimitedBooks flt tie db n @ rest) = mset (books_rows db)
          \<and> sorted (rev (map book_id (fetchLimitedBooks flt tie db n @ rest))))
   \<and> (\<not> flt 0 \<and> 0 \<le> n \<longrightarrow>
        length (fetchLimitedBooks flt tie db n) = min (nat n) (length (books_rows db)))"
proof -
  let ?all = "orderBy tie (Desc (Column Col_id)) (books_rows db)"
  have A: "flt 0 \<longrightarrow> fetchLimitedBooks flt tie db n = []"
    by (simp add: fetchLimitedBooks_def run_def)
  have "fetchLimitedBooks flt tie db n = take 0 ?all
        \<or> fetchLimitedBooks flt tie db n = take (nat n) ?all
        \<or> fetchLimitedBooks flt tie db n = take (length ?all) ?all"
    by (simp add: fetchLimitedBooks_def run_def limit_def)
  then obtain k where k: "fetchLimitedBooks flt tie db n = take k ?all" by blast
  have "mset (take k ?all @ drop k ?all) = mset (books_rows db)"
    by (simp add: mset_orderBy)
  moreover have "sorted (rev (map book_id (take k ?all @ drop k ?all)))"
    by (simp add: orderBy_desc_id)
  ultimately have B: "\<exists>rest. mset (fetchLimitedBooks flt tie db n @ rest) = mset (books_rows db)
          \<and> sorted (rev (map book_id (fetchLimitedBooks flt tie db n @ rest)))"
    unfolding k by blast
  have C: "\<not> flt 0 \<and> 0 \<le> n \<longrightarrow>
        length (fetchLimitedBooks flt tie db n) = min (nat n) (length (books_rows db))"
  proof
    assume "\<not> flt 0 \<and> 0 \<le> n"
    then have "fetchLimitedBooks flt tie db n = take (nat n) ?all"
      by (simp add: fetchLimitedBooks_def run_def limit_def)
    moreover have "length ?all = length (books_rows db)"
      using mset_orderBy [of tie "Desc (Column Col_id)" "books_rows db"] by (rule mset_eq_length)
    ultimately show "length (fetchLimitedBooks flt tie db n) = min (nat n) (length (books_rows db))"
      by simp
  qed
  show ?thesis by (rule conjI [OF A conjI [OF B C]])
qed

theorem fetchLimitedBooks_recent_witness:
  "fetchLimitedBooks store_down by_id store2 1 = []
   \<and> fetchLimitedBooks no_faults by_id store2 1 = [book2]
   \<and> length (fetchLimitedBooks no_faults by_id store2 1) = min (nat 1) (length (books_rows store2))
   \<and> (\<exists>rest. mset (fetchLimitedBooks no_faults by_id store2 1 @ rest) = mset (books_rows store2)
          \<and> sorted (rev (map book_id (fetchLimitedBooks no_faults by_id store2 1 @ rest))))"
proof -
  have rows: "books_rows store2 = [book1, book2]" by (simp add: store2_def)
  note t = fetchLimitedBooks_recent
  from t [where flt = store_down and tie = by_id and db = store2 and n = 1, THEN conjunct1]
  have a: "fetchLimitedBooks store_down by_id store2 1 = []" by (simp add: store_down_def)
  from t [where flt = no_faults and tie = by_id and db = store2 and n = 1,
      THEN conjunct2, THEN conjunct2]
  have c: "length (fetchLimitedBooks no_faults by_id store2 1)
             = min (nat 1) (length (books_rows store2))"
    by (simp add: no_faults_def)
  note e = t [where flt = no_faults and tie = by_id and db = store2 and n = 1,
      THEN conjunct2, THEN conjunct1]
  have d: "fetchLimitedBooks no_faults by_id store2 1 = [book2]"
    by (simp add: fetchLimitedBooks_def run_def limit_def orderBy_def sort_column_def
        no_faults_def by_id_def rows sample_fields)
  from a c d e show ?thesis by (intro conjI)
qed

subsection \<open>Writing titles\<close>

text \<open>
  C8. \<^verbatim>\<open>updateBooks\<close>: when the store fails the update, the call returns
  \<^verbatim>\<open>null\<close> (it does not raise) and the store is as before. Otherwise the call does not
  return \<^verbatim>\<open>null\<close>, the table has the same rows in the same places, every row keeps its
  \<open>id\<close>, \<open>isbn\<close>, \<open>title\<close>, \<open>author\<close>, \<open>genre\<close> and \<open>cover\<close>, a row with the given
  \<open>id\<close> has the two given counts, every other row is as it was, and nothing else in the
  store has changed.
\<close>

theorem updateBooks_frame:
  "(flt 0 \<longrightarrow> updateBooks flt db i t a = (Null, db))
   \<and> (\<not> flt 0 \<longrightarrow>
        fst (updateBooks flt db i t a) \<noteq> Null
        \<and> length (books_rows (snd (updateBooks flt db i t a))) = length (books_rows db)
        \<and> (\<forall>k < length (books_rows db).
              book_id (books_rows (snd (updateBooks flt db i t a)) ! k) = book_id (books_rows db ! k)
              \<and> isbn (books_rows (snd (updateBooks flt db i t a)) ! k) = isbn (books_rows db ! k)
              \<and> title (books_rows (snd (updateBooks flt db i t a)) ! k) = title (books_rows db ! k)
              \<and> author (books_rows (snd (updateBooks flt db i t a)) ! k) = author (books_rows db ! k)
              \<and> genre (books_rows (snd (updateBooks flt db i t a)) ! k) = genre (books_rows db ! k)
              \<and> cover (books_rows (snd (updateBooks flt db i t a)) ! k) = cover (books_rows db ! k)
              \<and> (book_id (books_rows db ! k) = i \<longrightarrow>
                    totalCopies (books_rows (snd (updateBooks flt db i t a)) ! k) = t
                    \<and> availableCopies (books_rows (snd (updateBooks flt db i t a)) ! k) = a)
              \<and> (book_id (books_rows db ! k) \<noteq> i \<longrightarrow>
                    books_rows (snd (updateBooks flt db i t a)) ! k = books_rows db ! k))
        \<and> physicalBooks_rows (snd (updateBooks flt db i t a)) = physicalBooks_rows db
        \<and> books_id_seq (snd (updateBooks flt db i t a)) = books_id_seq db)"
proof -
  let ?upd = "\<lambda>b. if book_id b = i then b\<lparr>totalCopies := t, availableCopies := a\<rparr> else b"
  let ?rows' = "map ?upd (books_rows db)"
  have A: "flt 0 \<longrightarrow> updateBooks flt db i t a = (Null, db)"
    by (simp add: updateBooks_def run_def Let_def)
  have s: "snd (updateBooks flt db i t a) = db\<lparr>books_rows := ?rows'\<rparr>" if "\<not> flt 0"
    using that by (simp add: updateBooks_def run_def Let_def)
  have r: "fst (updateBooks flt db i t a) \<noteq> Null" if "\<not> flt 0"
    using that by (simp add: updateBooks_def run_def Let_def split: list.split)
  have B: "\<not> flt 0 \<longrightarrow>
        fst (updateBooks flt db i t a) \<noteq> Null
        \<and> length (books_rows (snd (updateBooks flt db i t a))) = length (books_rows db)
        \<and> (\<forall>k < length (books_rows db).
              book_id (books_rows (snd (updateBooks flt db i t a)) ! k) = book_id (books_rows db ! k)
              \<and> isbn (books_rows (snd (updateBooks flt db i t a)) ! k) = isbn (books_rows db ! k)
              \<and> title (books_rows (snd (updateBooks flt db i t a)) ! k) = title (books_rows db ! k)
              \<and> author (books_rows (snd (updateBooks flt db i t a)) ! k) = author (books_rows db ! k)
              \<and> genre (books_rows (snd (updateBooks flt db i t a)) ! k) = genre (books_rows db ! k)
              \<and> cover (books_rows (snd (updateBooks flt db i t a)) ! k) = cover (books_rows db ! k)
              \<and> (book_id (books_rows db ! k) = i \<longrightarrow>
                    totalCopies (books_rows (snd (updateBooks flt db i t a)) ! k) = t
                    \<and> availableCopies (books_rows (snd (updateBooks flt db i t a)) ! k) = a)
              \<and> (book_id (books_rows db ! k) \<noteq> i \<longrightarrow>
                    books_rows (snd (updateBooks flt db i t a)) ! k = books_rows db ! k))
        \<and> physicalBooks_rows (snd (updateBooks flt db i t a)) = physicalBooks_rows db
        \<and> books_id_seq (snd (updateBooks flt db i t a)) = books_id_seq db"
  proof
    assume h: "\<not> flt 0"
    show "fst (updateBooks flt db i t a) \<noteq> Null
        \<and> length (books_rows (snd (updateBooks flt db i t a))) = length (books_rows db)
        \<and> (\<forall>k < length (books_rows db).
              book_id (books_rows (snd (updateBooks flt db i t a)) ! k) = book_id (books_rows db ! k)
              \<and> isbn (books_rows (snd (updateBooks flt db i t a)) ! k) = isbn (books_rows db ! k)
              \<and> title (books_rows (snd (updateBooks flt db i t a)) ! k) = title (books_rows db ! k)
              \<and> author (books_rows (snd (updateBooks flt db i t a)) ! k) = author (books_rows db ! k)
              \<and> genre (books_rows (snd (updateBooks flt db i t a)) ! k) = genre (books_rows db ! k)
              \<and> cover (books_rows (snd (updateBooks flt db i t a)) ! k) = cover (books_rows db ! k)
              \<and> (book_id (books_rows db ! k) = i \<longrightarrow>
                    totalCopies (books_rows (snd (updateBooks flt db i t a)) ! k) = t
                    \<and> availableCopies (books_rows (snd (updateBooks flt db i t a)) ! k) = a)
              \<and> (book_id (books_rows db ! k) \<noteq> i \<longrightarrow>
                    books_rows (snd (updateBooks flt db i t a)) ! k = books_rows db ! k))
        \<and> physicalBooks_rows (snd (updateBooks flt db i t a)) = physicalBooks_rows db
        \<and> books_id_seq (snd (updateBooks flt db i t a)) = books_id_seq db"
      unfolding s [OF h] using r [OF h] by simp
  qed
  show ?thesis by (rule conjI [OF A B])
qed

theorem updateBooks_frame_witness:
  "updateBooks store_down store2 2 7 4 = (Null, store2)
   \<and> updateBooks no_faults store2 2 7 4
       = (Obj (book2\<lparr>totalCopies := 7, availableCopies := 4\<rparr>),
          store2\<lparr>books_rows := [book1, book2\<lparr>totalCopies := 7, availableCopies := 4\<rparr>]\<rparr>)
   \<and> fst (updateBooks no_faults store2 2 7 4) \<noteq> Null
   \<and> title (books_rows (snd (updateBooks no_faults store2 2 7 4)) ! 1) = title (books_rows store2 ! 1)
   \<and> totalCopies (books_rows (snd (updateBooks no_faults store2 2 7 4)) ! 1) = 7
   \<and> books_rows (snd (updateBooks no_faults store2 2 7 4)) ! 0 = books_rows store2 ! 0"
proof -
  have rows: "books_rows store2 = [book1, book2]" by (simp add: store2_def)
  have ids: "book_id book1 = 1" "book_id book2 = 2" by (simp_all add: book1_def book2_def)
  note t = updateBooks_frame [where db = store2 and i = 2 and t = 7 and a = 4]
  from t [where flt = store_down, THEN conjunct1]
  have a: "updateBooks store_down store2 2 7 4 = (Null, store2)"
    by (simp add: store_down_def)
  have f: "\<not> no_faults 0" by (simp add: no_faults_def)
  note u = t [where flt = no_faults, THEN conjunct2, THEN mp, OF f]
  from u have b: "fst (updateBooks no_faults store2 2 7 4) \<noteq> Null" by simp
  from u have "\<forall>k<length (books_rows store2).
     title (books_rows (snd (updateBooks no_faults store2 2 7 4)) ! k) = title (books_rows store2 ! k)
     \<and> (book_id (books_rows store2 ! k) = 2 \<longrightarrow>
            totalCopies (books_rows (snd (updateBooks no_faults store2 2 7 4)) ! k) = 7)
     \<and> (book_id (books_rows store2 ! k) \<noteq> 2 \<longrightarrow>
            books_rows (snd (updateBooks no_faults store2 2 7 4)) ! k = books_rows store2 ! k)"
    by simp
  then have c: "title (books_rows (snd (updateBooks no_faults store2 2 7 4)) ! 1) = title (books_rows store2 ! 1)
     \<and> totalCopies (books_rows (snd (updateBooks no_faults store2 2 7 4)) ! 1) = 7
     \<and> books_rows (snd (updateBooks no_faults store2 2 7 4)) ! 0 = books_rows store2 ! 0"
    by (simp add: rows ids)
  have d: "updateBooks no_faults store2 2 7 4
       = (Obj (book2\<lparr>totalCopies := 7, availableCopies := 4\<rparr>),
          store2\<lparr>books_rows := [book1, book2\<lparr>totalCopies := 7, availableCopies := 4\<rparr>]\<rparr>)"
    by (simp add: updateBooks_def run_def Let_def no_faults_def rows ids)
  from a b c d show ?thesis by (intro conjI) simp_all
qed

text \<open>
  C3, as the code has it. When the store accepts the insert (the next \<open>id\<close> of the
  sequence is free), \<^verbatim>\<open>createBooks\<close> appends one row with the next \<open>id\<close> and the seven
  given values and returns the raw result of the insert statement, which carries no row;
  \<^verbatim>\<open>fetchBookById\<close> at the \<open>id\<close> the store assigned then returns that row, its
  \<open>isbn\<close>, \<open>title\<close>, \<open>author\<close>, \<open>genre\<close>, \<open>totalCopies\<close>, \<open>availableCopies\<close> and
  \<open>cover\<close> being the values given.
\<close>

theorem createBooks_then_fetch:
  assumes "\<not> flt 0" and "books_id_seq db + 1 \<notin> set (map book_id (books_rows db))"
    and "\<not> flt' 0"
  shows "\<exists>res db' b.
           createBooks flt db isbn' title' author' genre' totalCopies' availableCopies' cover'
             = (Inr res, db')
           \<and> rows res = [] \<and> rowCount res = 1
           \<and> books_rows db' = books_rows db @ [b]
           \<and> book_id b = books_id_seq db + 1
           \<and> fetchBookById flt' db' (book_id b) = Inr (Obj b)
           \<and> isbn b = isbn' \<and> title b = title' \<and> author b = author' \<and> genre b = genre'
           \<and> totalCopies b = totalCopies' \<and> availableCopies b = availableCopies'
           \<and> cover b = cover'"
proof -
  let ?i = "books_id_seq db + 1"
  let ?b = "\<lparr>isbn = isbn', title = title', author = author', genre = genre',
             totalCopies = totalCopies', availableCopies = availableCopies',
             cover = cover', book_id = ?i\<rparr>"
  let ?res = "\<lparr>command = ''INSERT'', rowCount = 1, rows = []\<rparr> :: book query_result"
  let ?db' = "db\<lparr>books_rows := books_rows db @ [?b], books_id_seq := ?i\<rparr>"
  from assms(1,2)
  have c: "createBooks flt db isbn' title' author' genre' totalCopies' availableCopies' cover'
             = (Inr ?res, ?db')"
    by (simp add: createBooks_def insert_books_def Let_def)
  from assms(2) have "filter (\<lambda>r. book_id r = ?i) (books_rows db) = []"
    by (auto simp: filter_empty_conv) (metis imageI)
  then have "filter (\<lambda>r. book_id r = ?i) (books_rows ?db') = [?b]"
    by simp
  with assms(3) have f: "fetchBookById flt' ?db' (book_id ?b) = Inr (Obj ?b)"
    by (simp add: fetchBookById_def run_def limit_def)
  show ?thesis
    apply (rule exI [of _ ?res])
    apply (rule exI [of _ ?db'])
    apply (rule exI [of _ ?b])
    using c f apply simp
    done
qed

theorem createBooks_then_fetch_witness:
  "\<not> no_faults 0 \<and> books_id_seq store2 + 1 \<notin> set (map book_id (books_rows store2))
   \<and> (\<exists>res db'. createBooks no_faults store2 ''333'' ''Ulysses'' ''Joyce'' ''Novel'' 2 2 ''u.png''
             = (Inr res, db')
        \<and> rows res = [] \<and> books_rows db' = books_rows store2 @ [book3]
        \<and> fetchBookById no_faults db' 3 = Inr (Obj book3))"
proof -
  have f: "\<not> no_faults 0" by (simp add: no_faults_def)
  have fresh: "books_id_seq store2 + 1 \<notin> set (map book_id (books_rows store2))"
    by (simp add: store2_def book1_def book2_def)
  from createBooks_then_fetch [where flt = no_faults and flt' = no_faults and db = store2, OF f fresh f,
      of "''333''" "''Ulysses''" "''Joyce''" "''Novel''" 2 2 "''u.png''"]
  obtain res db' b where
    c: "createBooks no_faults store2 ''333'' ''Ulysses'' ''Joyce'' ''Novel'' 2 2 ''u.png'' = (Inr res, db')"
    and r: "rows res = []" and n: "books_rows db' = books_rows store2 @ [b]"
    and i: "book_id b = books_id_seq store2 + 1"
    and g: "fetchBookById no_faults db' (book_id b) = Inr (Obj b)"
    and v: "isbn b = ''333''" "title b = ''Ulysses''" "author b = ''Joyce''" "genre b = ''Novel''"
      "totalCopies b = 2" "availableCopies b = 2" "cover b = ''u.png''"
    by blast
  from i have i3: "book_id b = 3" by (simp add: store2_def)
  with v have "b = book3" by (simp add: book3_def)
  with c r n g i3 have "createBooks no_faults store2 ''333'' ''Ulysses'' ''Joyce'' ''Novel'' 2 2 ''u.png''
             = (Inr res, db')
        \<and> rows res = [] \<and> books_rows db' = books_rows store2 @ [book3]
        \<and> fetchBookById no_faults db' 3 = Inr (Obj book3)" by simp
  then have "\<exists>res db'. createBooks no_faults store2 ''333'' ''Ulysses'' ''Joyce'' ''Novel'' 2 2 ''u.png''
             = (Inr res, db')
        \<and> rows res = [] \<and> books_rows db' = books_rows store2 @ [book3]
        \<and> fetchBookById no_faults db' 3 = Inr (Obj book3)" by blast
  with f fresh show ?thesis by blast
qed

text \<open>
  C3 as claimed fails: what \<^verbatim>\<open>createBooks\<close> returns is not the created title. On the
  sample store the returned value is the raw result with no rows, while the new row is
  in the table.
\<close>

theorem createBooks_returns_no_title:
  "fst (createBooks no_faults store2 ''333'' ''Ulysses'' ''Joyce'' ''Novel'' 2 2 ''u.png'')
     = Inr \<lparr>command = ''INSERT'', rowCount = 1, rows = []\<rparr>
   \<and> book3 \<in> set (books_rows
        (snd (createBooks no_faults store2 ''333'' ''Ulysses'' ''Joyce'' ''Novel'' 2 2 ''u.png'')))"
  by (simp add: createBooks_def insert_books_def Let_def no_faults_def store2_def
      book1_def book2_def book3_def)

subsection \<open>The paginated list\<close>

lemma sorted_map_slice:
  "sorted (map f xs) \<Longrightarrow> sorted (map f (take n (drop m xs)))"
  by (simp add: take_map [symmetric] drop_map [symmetric] sorted_wrt_take sorted_wrt_drop)

lemma ascending_sort_column: "ascending c (sort_column tie c bs)"
  by (cases c) (simp_all add: ascending_def sort_column_def)

lemma ascending_slice: "ascending c bs \<Longrightarrow> ascending c (take n (drop m bs))"
  by (cases c) (simp_all add: ascending_def sorted_map_slice)

lemma js_ceil_div_pos:
  "b \<noteq> 0 \<Longrightarrow> js_ceil_div a b = Num \<lceil>real_of_int a / real_of_int b\<rceil>"
  by (simp add: js_ceil_div_def ceiling_divide_eq_div)

lemma orderByClause_column:
  "books_column sortField = Some c \<Longrightarrow>
     orderByClause props sortField sortOrder
       = Some (if sortOrder = ''desc'' then Desc (Column c) else Asc (Column c))"
  by (simp add: orderByClause_def books_lookup_def)

lemma readBooks_answered:
  assumes "0 \<le> (page - 1) * pageSize"
    and "orderByClause props sortField sortOrder = Some clause" and "\<not> flt 0" and "\<not> flt 1"
  shows "readBooks flt tie props db page pageSize sortField sortOrder searchQuery =
           Inr \<lparr>books =
                  (if pageSize < 0
                   then drop (nat ((page - 1) * pageSize))
                          (orderBy tie clause (where_rows (whereClause searchQuery) (books_rows db)))
                   else take (nat pageSize) (drop (nat ((page - 1) * pageSize))
                          (orderBy tie clause (where_rows (whereClause searchQuery) (books_rows db))))),
                totalBooks = int (length (where_rows (whereClause searchQuery) (books_rows db))),
                totalPages = js_ceil_div
                   (int (length (where_rows (whereClause searchQuery) (books_rows db)))) pageSize\<rparr>"
proof -
  from assms(1) have "\<not> (page - 1) * pageSize < 0" by (simp only: not_less)
  with assms(2-4) show ?thesis
    by (simp add: readBooks_def run_def limit_offset_def Let_def)
qed

lemma readBooks_InrD:
  assumes "readBooks flt tie props db page pageSize sortField sortOrder searchQuery = Inr r"
  shows "0 \<le> (page - 1) * pageSize \<and> \<not> flt 0 \<and> \<not> flt 1
         \<and> (\<exists>clause. orderByClause props sortField sortOrder = Some clause)"
proof -
  have "\<not> (page - 1) * pageSize < 0 \<and> \<not> flt 0 \<and> \<not> flt 1
         \<and> (\<exists>clause. orderByClause props sortField sortOrder = Some clause)"
    using assms
    by (auto simp: readBooks_def run_def limit_offset_def Let_def
        split: if_splits option.splits sum.splits)
  then show ?thesis using not_less by blast
qed

text \<open>
  C4. \<^verbatim>\<open>readBooks\<close> at a page \<open>page \<ge> 1\<close> of size \<open>pageSize \<ge> 1\<close>, sorted on a
  column of the table, the store answering both queries: the call returns;
  \<open>totalBooks\<close> is the number of rows the filter keeps and \<open>totalPages\<close> is
  \<open>\<lceil>totalBooks / pageSize\<rceil>\<close>; the rows returned are the \<open>pageSize\<close> rows after the
  first \<open>(page - 1) * pageSize\<close> of an arrangement of the kept rows, and for every
  \<open>sortOrder\<close> other than \<^verbatim>\<open>desc\<close> that arrangement, and so the page, is in ascending
  order of the column, and the call returns what it returns for \<^verbatim>\<open>asc\<close>.
\<close>

theorem readBooks_pagination:
  assumes "1 \<le> page" and "1 \<le> pageSize" and "books_column sortField = Some c"
    and "\<not> flt 0" and "\<not> flt 1"
  shows "\<exists>r. readBooks flt tie props db page pageSize sortField sortOrder searchQuery = Inr r
           \<and> totalBooks r = int (length (where_rows (whereClause searchQuery) (books_rows db)))
           \<and> totalPages r = Num \<lceil>real_of_int (totalBooks r) / real_of_int pageSize\<rceil>
           \<and> (\<exists>ordered. mset ordered = mset (where_rows (whereClause searchQuery) (books_rows db))
                 \<and> books r = take (nat pageSize) (drop (nat ((page - 1) * pageSize)) ordered)
                 \<and> (sortOrder \<noteq> ''desc'' \<longrightarrow> ascending c ordered))
           \<and> (sortOrder \<noteq> ''desc'' \<longrightarrow> ascending c (books r)
                 \<and> readBooks flt tie props db page pageSize sortField sortOrder searchQuery
                     = readBooks flt tie props db page pageSize sortField ''asc'' searchQuery)"
proof -
  let ?m = "where_rows (whereClause searchQuery) (books_rows db)"
  let ?cl = "if sortOrder = ''desc'' then Desc (Column c) else Asc (Column c)"
  let ?r = "\<lparr>books = take (nat pageSize) (drop (nat ((page - 1) * pageSize)) (orderBy tie ?cl ?m)),
            totalBooks = int (length ?m),
            totalPages = js_ceil_div (int (length ?m)) pageSize\<rparr>"
  from assms(1,2) have p: "0 \<le> (page - 1) * pageSize" "\<not> pageSize < 0" "pageSize \<noteq> 0"
    by simp_all
  from assms(3) have o: "orderByClause props sortField sortOrder = Some ?cl"
    by (rule orderByClause_column)
  have e: "readBooks flt tie props db page pageSize sortField sortOrder searchQuery = Inr ?r"
    using readBooks_answered [OF p(1) o assms(4,5), of tie db searchQuery] p(2) by simp
  have tp: "totalPages ?r = Num \<lceil>real_of_int (totalBooks ?r) / real_of_int pageSize\<rceil>"
    using p(3) by (simp add: js_ceil_div_pos)
  have ord: "mset (orderBy tie ?cl ?m) = mset ?m
      \<and> books ?r = take (nat pageSize) (drop (nat ((page - 1) * pageSize)) (orderBy tie ?cl ?m))
      \<and> (sortOrder \<noteq> ''desc'' \<longrightarrow> ascending c (orderBy tie ?cl ?m))"
    by (simp add: mset_orderBy ascending_sort_column orderBy_def mset_sort_column)
  have asc: "ascending c (books ?r)
       \<and> readBooks flt tie props db page pageSize sortField sortOrder searchQuery
           = readBooks flt tie props db page pageSize sortField ''asc'' searchQuery"
    if "sortOrder \<noteq> ''desc''"
  proof -
    from orderByClause_column [OF assms(3), of props "''asc''"]
    have o': "orderByClause props sortField ''asc'' = Some (Asc (Column c))"
      by simp
    from that have "?cl = Asc (Column c)" by simp
    with e readBooks_answered [OF p(1) o' assms(4,5), of tie db searchQuery] p(2)
    have "readBooks flt tie props db page pageSize sortField sortOrder searchQuery
           = readBooks flt tie props db page pageSize sortField ''asc'' searchQuery"
      by simp
    moreover from that have "ascending c (books ?r)"
      by (simp add: orderBy_def ascending_slice ascending_sort_column)
    ultimately show ?thesis by simp
  qed
  show ?thesis
    apply (rule exI [of _ ?r])
    apply (intro conjI)
        apply (rule e)
       apply simp
      apply (rule tp)
     apply (rule exI [of _ "orderBy tie ?cl ?m"])
     apply (rule ord)
    using asc apply blast
    done
qed

theorem readBooks_pagination_witness:
  "(1::int) \<le> 2 \<and> books_column ''title'' = Some Col_title \<and> \<not> no_faults 0 \<and> \<not> no_faults 1
   \<and> ''up'' \<noteq> ''desc''
   \<and> readBooks no_faults by_id no_props store3 2 2 ''title'' ''up'' []
       = Inr \<lparr>books = [book3], totalBooks = 3, totalPages = Num 2\<rparr>
   \<and> Num 2 = Num \<lceil>real_of_int 3 / real_of_int 2\<rceil>
   \<and> ascending Col_title [book3]
   \<and> readBooks no_faults by_id no_props store3 2 2 ''title'' ''up'' []
       = readBooks no_faults by_id no_props store3 2 2 ''title'' ''asc'' []"
proof -
  have h: "(1::int) \<le> 2" "books_column ''title'' = Some Col_title"
    "\<not> no_faults 0" "\<not> no_faults 1" "''up'' \<noteq> ''desc''"
    by (simp_all add: books_column_def no_faults_def)
  have d: "readBooks no_faults by_id no_props store3 2 2 ''title'' ''up'' []
       = Inr \<lparr>books = [book3], totalBooks = 3, totalPages = Num 2\<rparr>"
    by (simp add: readBooks_def run_def limit_offset_def orderByClause_def books_lookup_def
        books_column_def orderBy_def sort_column_def where_rows_def whereClause_def
        js_ceil_div_def no_faults_def by_id_def store3_def sample_fields)
  from readBooks_pagination [where flt = no_faults and tie = by_id and props = no_props
      and db = store3 and sortOrder = "''up''" and searchQuery = "[]",
      OF h(1) h(1) h(2) h(3) h(4)]
  obtain r where r: "readBooks no_faults by_id no_props store3 2 2 ''title'' ''up'' [] = Inr r"
    and tp: "totalPages r = Num \<lceil>real_of_int (totalBooks r) / real_of_int 2\<rceil>"
    and a: "''up'' \<noteq> ''desc'' \<longrightarrow> ascending Col_title (books r)
                 \<and> readBooks no_faults by_id no_props store3 2 2 ''title'' ''up'' []
                     = readBooks no_faults by_id no_props store3 2 2 ''title'' ''asc'' []"
    by blast
  from r d have e: "r = \<lparr>books = [book3], totalBooks = 3, totalPages = Num 2\<rparr>" by simp
  from tp have t: "Num 2 = Num \<lceil>real_of_int 3 / real_of_int 2\<rceil>" unfolding e by simp
  from a h(5) have "ascending Col_title [book3]
                 \<and> readBooks no_faults by_id no_props store3 2 2 ''title'' ''up'' []
                     = readBooks no_faults by_id no_props store3 2 2 ''title'' ''asc'' []"
    unfolding e by simp
  with h d t show ?thesis by blast
qed

text \<open>
  C5, as the code has it. A call at \<open>page \<ge> 1\<close>, \<open>pageSize \<ge> 1\<close> on a name the table
  object has, answered by the store, returns. Whenever a call returns, with a non-empty
  \<open>searchQuery\<close>: the rows returned are rows of the table whose \<open>title\<close>, \<open>author\<close> or
  \<open>isbn\<close> matches the pattern \<^verbatim>\<open>%searchQuery%\<close> of \<^verbatim>\<open>LIKE\<close>, \<open>totalBooks\<close> counts
  exactly those rows of the table, and at \<open>page \<ge> 1\<close>, \<open>pageSize \<ge> 1\<close> the rows returned
  are the page of an arrangement of exactly those rows. When \<open>searchQuery\<close> has none of
  the wildcards of \<^verbatim>\<open>LIKE\<close> (\<^verbatim>\<open>%\<close>, \<^verbatim>\<open>_\<close>, backslash), a field matches the pattern
  exactly when it contains \<open>searchQuery\<close> as a substring, case-sensitively, so that
  all this holds of the rows containing \<open>searchQuery\<close>. For the empty \<open>searchQuery\<close> the
  whole table is counted and (at \<open>page \<ge> 1\<close>, \<open>pageSize \<ge> 1\<close>) paged. And when a
  non-empty \<open>searchQuery\<close> matches no row and \<open>pageSize \<ge> 1\<close>, the result has no rows,
  \<open>totalBooks = 0\<close> and \<open>totalPages = 0\<close>.
\<close>

theorem readBooks_search:
  "(1 \<le> page \<and> 1 \<le> pageSize \<and> books_lookup props sortField \<noteq> None
      \<and> \<not> flt 0 \<and> \<not> flt 1 \<longrightarrow>
      (\<exists>r. readBooks flt tie props db page pageSize sortField sortOrder searchQuery = Inr r))
   \<and> (\<forall>r. readBooks flt tie props db page pageSize sortField sortOrder searchQuery = Inr r \<longrightarrow>
        (searchQuery \<noteq> [] \<longrightarrow>
           (\<forall>b \<in> set (books r). b \<in> set (books_rows db)
               \<and> (like (title b) (''%'' @ searchQuery @ ''%'')
                    \<or> like (author b) (''%'' @ searchQuery @ ''%'')
                    \<or> like (isbn b) (''%'' @ searchQuery @ ''%'')))
           \<and> totalBooks r
               = int (length (filter (\<lambda>b. like (title b) (''%'' @ searchQuery @ ''%'')
                                \<or> like (author b) (''%'' @ searchQuery @ ''%'')
                                \<or> like (isbn b) (''%'' @ searchQuery @ ''%'')) (books_rows db)))
           \<and> (1 \<le> page \<and> 1 \<le> pageSize \<longrightarrow>
                (\<exists>ordered.
                   mset ordered
                     = mset (filter (\<lambda>b. like (title b) (''%'' @ searchQuery @ ''%'')
                                \<or> like (author b) (''%'' @ searchQuery @ ''%'')
                                \<or> like (isbn b) (''%'' @ searchQuery @ ''%'')) (books_rows db))
                   \<and> books r = take (nat pageSize) (drop (nat ((page - 1) * pageSize)) ordered))))
        \<and> (searchQuery \<noteq> [] \<and> no_wildcards searchQuery \<longrightarrow>
           (\<forall>s. like s (''%'' @ searchQuery @ ''%'') \<longleftrightarrow> sublist searchQuery s)
           \<and> (\<forall>b \<in> set (books r). b \<in> set (books_rows db)
               \<and> (sublist searchQuery (title b) \<or> sublist searchQuery (author b)
                    \<or> sublist searchQuery (isbn b)))
           \<and> totalBooks r
               = int (length (filter (\<lambda>b. sublist searchQuery (title b)
                                \<or> sublist searchQuery (author b)
                                \<or> sublist searchQuery (isbn b)) (books_rows db)))
           \<and> (1 \<le> page \<and> 1 \<le> pageSize \<longrightarrow>
                (\<exists>ordered.
                   mset ordered
                     = mset (filter (\<lambda>b. sublist searchQuery (title b)
                                \<or> sublist searchQuery (author b)
                                \<or> sublist searchQuery (isbn b)) (books_rows db))
                   \<and> books r = take (nat pageSize) (drop (nat ((page - 1) * pageSize)) ordered))))
        \<and> (searchQuery = [] \<longrightarrow>
             totalBooks r = int (length (books_rows db))
             \<and> (1 \<le> page \<and> 1 \<le> pageSize \<longrightarrow>
                  (\<exists>ordered. mset ordered = mset (books_rows db)
                     \<and> books r = take (nat pageSize) (drop (nat ((page - 1) * pageSize)) ordered))))
        \<and> (searchQuery \<noteq> [] \<and> 1 \<le> pageSize
             \<and> (\<forall>b \<in> set (books_rows db).
                    \<not> like (title b) (''%'' @ searchQuery @ ''%'')
                    \<and> \<not> like (author b) (''%'' @ searchQuery @ ''%'')
                    \<and> \<not> like (isbn b) (''%'' @ searchQuery @ ''%'')) \<longrightarrow>
             books r = [] \<and> totalBooks r = 0 \<and> totalPages r = Num 0))"
proof -
  let ?q = searchQuery
  let ?pat = "''%'' @ ?q @ ''%''"
  let ?m = "where_rows (whereClause ?q) (books_rows db)"
  let ?call = "readBooks flt tie props db page pageSize sortField sortOrder ?q"
  let ?like = "\<lambda>b. like (title b) ?pat \<or> like (author b) ?pat \<or> like (isbn b) ?pat"
  let ?has = "\<lambda>b. sublist ?q (title b) \<or> sublist ?q (author b) \<or> sublist ?q (isbn b)"
  have A: "1 \<le> page \<and> 1 \<le> pageSize \<and> books_lookup props sortField \<noteq> None
      \<and> \<not> flt 0 \<and> \<not> flt 1 \<longrightarrow> (\<exists>r. ?call = Inr r)"
  proof
    assume h: "1 \<le> page \<and> 1 \<le> pageSize \<and> books_lookup props sortField \<noteq> None
      \<and> \<not> flt 0 \<and> \<not> flt 1"
    then obtain t where "books_lookup props sortField = Some t" by blast
    then have "orderByClause props sortField sortOrder
                 = Some (if sortOrder = ''desc'' then Desc t else Asc t)"
      by (simp add: orderByClause_def)
    then obtain clause where o: "orderByClause props sortField sortOrder = Some clause"
      by blast
    from h have p: "0 \<le> (page - 1) * pageSize" "\<not> flt 0" "\<not> flt 1"
      by simp_all
    from readBooks_answered [OF p(1) o p(2,3), of tie db ?q]
    show "\<exists>r. ?call = Inr r" by blast
  qed
  have kept: "?m = filter ?like (books_rows db)" if "?q \<noteq> []"
    using that by (simp add: where_rows_def whereClause_def Let_def)
  have all: "?m = books_rows db" if "?q = []"
    using that by (simp add: where_rows_def whereClause_def)
  have B: "(?q \<noteq> [] \<longrightarrow>
           (\<forall>b \<in> set (books r). b \<in> set (books_rows db) \<and> ?like b)
           \<and> totalBooks r = int (length (filter ?like (books_rows db)))
           \<and> (1 \<le> page \<and> 1 \<le> pageSize \<longrightarrow>
                (\<exists>ordered. mset ordered = mset (filter ?like (books_rows db))
                   \<and> books r = take (nat pageSize) (drop (nat ((page - 1) * pageSize)) ordered))))
        \<and> (?q \<noteq> [] \<and> no_wildcards ?q \<longrightarrow>
           (\<forall>s. like s ?pat \<longleftrightarrow> sublist ?q s)
           \<and> (\<forall>b \<in> set (books r). b \<in> set (books_rows db) \<and> ?has b)
           \<and> totalBooks r = int (length (filter ?has (books_rows db)))
           \<and> (1 \<le> page \<and> 1 \<le> pageSize \<longrightarrow>
                (\<exists>ordered. mset ordered = mset (filter ?has (books_rows db))
                   \<and> books r = take (nat pageSize) (drop (nat ((page - 1) * pageSize)) ordered))))
        \<and> (?q = [] \<longrightarrow>
             totalBooks r = int (length (books_rows db))
             \<and> (1 \<le> page \<and> 1 \<le> pageSize \<longrightarrow>
                  (\<exists>ordered. mset ordered = mset (books_rows db)
                     \<and> books r = take (nat pageSize) (drop (nat ((page - 1) * pageSize)) ordered))))
        \<and> (?q \<noteq> [] \<and> 1 \<le> pageSize
             \<and> (\<forall>b \<in> set (books_rows db).
                    \<not> like (title b) ?pat \<and> \<not> like (author b) ?pat \<and> \<not> like (isbn b) ?pat) \<longrightarrow>
             books r = [] \<and> totalBooks r = 0 \<and> totalPages r = Num 0)"
    if call: "?call = Inr r" for r
  proof -
    from readBooks_InrD [OF call] obtain clause where
      p: "0 \<le> (page - 1) * pageSize" "\<not> flt 0" "\<not> flt 1"
      and o: "orderByClause props sortField sortOrder = Some clause" by blast
    let ?S = "orderBy tie clause ?m"
    from readBooks_answered [OF p(1) o p(2,3), of tie db ?q] call
    have r: "r = \<lparr>books = (if pageSize < 0 then drop (nat ((page - 1) * pageSize)) ?S
                            else take (nat pageSize) (drop (nat ((page - 1) * pageSize)) ?S)),
                  totalBooks = int (length ?m),
                  totalPages = js_ceil_div (int (length ?m)) pageSize\<rparr>"
      by simp
    have S: "mset ?S = mset ?m" by (rule mset_orderBy)
    have tb: "totalBooks r = int (length ?m)" unfolding r by simp
    have sub: "set (books r) \<subseteq> set ?m"
    proof -
      have "set (books r) \<subseteq> set ?S"
        unfolding r by (auto dest: in_set_takeD in_set_dropD)
      also have "\<dots> = set ?m" using S by (rule mset_eq_setD)
      finally show ?thesis .
    qed
    have page: "\<exists>ordered. mset ordered = mset ?m
                   \<and> books r = take (nat pageSize) (drop (nat ((page - 1) * pageSize)) ordered)"
      if "1 \<le> page \<and> 1 \<le> pageSize"
    proof -
      from that have "\<not> pageSize < 0" by simp
      then have "books r = take (nat pageSize) (drop (nat ((page - 1) * pageSize)) ?S)"
        unfolding r by simp
      with S show ?thesis by blast
    qed
    have general: "(\<forall>b \<in> set (books r). b \<in> set (books_rows db) \<and> P b)
           \<and> totalBooks r = int (length (filter P (books_rows db)))
           \<and> (1 \<le> page \<and> 1 \<le> pageSize \<longrightarrow>
                (\<exists>ordered. mset ordered = mset (filter P (books_rows db))
                   \<and> books r = take (nat pageSize) (drop (nat ((page - 1) * pageSize)) ordered)))"
      if m: "?m = filter P (books_rows db)" for P
    proof -
      from sub have "\<forall>b \<in> set (books r). b \<in> set (books_rows db) \<and> P b"
        unfolding m by auto
      moreover from tb have "totalBooks r = int (length (filter P (books_rows db)))"
        unfolding m .
      moreover from page have "1 \<le> page \<and> 1 \<le> pageSize \<longrightarrow>
                (\<exists>ordered. mset ordered = mset (filter P (books_rows db))
                   \<and> books r = take (nat pageSize) (drop (nat ((page - 1) * pageSize)) ordered))"
        unfolding m by blast
      ultimately show ?thesis by blast
    qed
    have B1: "(\<forall>b \<in> set (books r). b \<in> set (books_rows db) \<and> ?like b)
           \<and> totalBooks r = int (length (filter ?like (books_rows db)))
           \<and> (1 \<le> page \<and> 1 \<le> pageSize \<longrightarrow>
                (\<exists>ordered. mset ordered = mset (filter ?like (books_rows db))
                   \<and> books r = take (nat pageSize) (drop (nat ((page - 1) * pageSize)) ordered)))"
      if "?q \<noteq> []"
      using general [OF kept [OF that]] .
    have B2: "(\<forall>s. like s ?pat \<longleftrightarrow> sublist ?q s)
           \<and> (\<forall>b \<in> set (books r). b \<in> set (books_rows db) \<and> ?has b)
           \<and> totalBooks r = int (length (filter ?has (books_rows db)))
           \<and> (1 \<le> page \<and> 1 \<le> pageSize \<longrightarrow>
                (\<exists>ordered. mset ordered = mset (filter ?has (books_rows db))
                   \<and> books r = take (nat pageSize) (drop (nat ((page - 1) * pageSize)) ordered)))"
      if h: "?q \<noteq> [] \<and> no_wildcards ?q"
    proof -
      from h have eq: "\<forall>s. like s ?pat \<longleftrightarrow> sublist ?q s"
        by (simp only: like_substring simp_thms)
      then have lh: "?like = ?has" by (intro ext) (simp only:)
      from h have "?m = filter ?like (books_rows db)" using kept by blast
      then have "?m = filter ?has (books_rows db)" by (simp only: lh)
      from general [OF this] eq show ?thesis by blast
    qed
    have B3: "totalBooks r = int (length (books_rows db))
             \<and> (1 \<le> page \<and> 1 \<le> pageSize \<longrightarrow>
                  (\<exists>ordered. mset ordered = mset (books_rows db)
                     \<and> books r = take (nat pageSize) (drop (nat ((page - 1) * pageSize)) ordered)))"
      if "?q = []"
      using tb page unfolding all [OF that] by blast
    have B4: "books r = [] \<and> totalBooks r = 0 \<and> totalPages r = Num 0"
      if h: "?q \<noteq> [] \<and> 1 \<le> pageSize
             \<and> (\<forall>b \<in> set (books_rows db).
                    \<not> like (title b) ?pat \<and> \<not> like (author b) ?pat \<and> \<not> like (isbn b) ?pat)"
    proof -
      from h have "filter ?like (books_rows db) = []"
        by (simp add: filter_empty_conv)
      with kept h have m: "?m = []" by simp
      from sub have "books r = []" unfolding m by simp
      moreover from tb have "totalBooks r = 0" unfolding m by simp
      moreover from h have "totalPages r = Num 0" unfolding r m by (simp add: js_ceil_div_def)
      ultimately show ?thesis by simp
    qed
    from B1 B2 B3 B4 show ?thesis by blast
  qed
  from A B show ?thesis by blast
qed

theorem readBooks_search_witness:
  "readBooks no_faults by_id no_props store3 1 10 ''title'' ''asc'' ''Aus''
     = Inr \<lparr>books = [book2], totalBooks = 1, totalPages = Num 1\<rparr>
   \<and> ''Aus'' \<noteq> []
   \<and> book2 \<in> set (books_rows store3) \<and> sublist ''Aus'' (author book2)
   \<and> like (author book2) (''%'' @ ''Aus'' @ ''%'')
   \<and> (1::int) = int (length (filter (\<lambda>b. sublist ''Aus'' (title b) \<or> sublist ''Aus'' (author b)
                                  \<or> sublist ''Aus'' (isbn b)) (books_rows store3)))
   \<and> readBooks no_faults by_id no_props store3 1 10 ''title'' ''asc'' ''zzz''
     = Inr \<lparr>books = [], totalBooks = 0, totalPages = Num 0\<rparr>
   \<and> readBooks no_faults by_id no_props store3 1 10 ''title'' ''asc'' []
     = Inr \<lparr>books = [book1, book2, book3], totalBooks = 3, totalPages = Num 1\<rparr>"
proof -
  note ev = readBooks_def run_def limit_offset_def orderByClause_def books_lookup_def
    books_column_def orderBy_def sort_column_def where_rows_def whereClause_def js_ceil_div_def
    no_faults_def by_id_def store3_def like_def Let_def sample_fields
  have d1: "readBooks no_faults by_id no_props store3 1 10 ''title'' ''asc'' ''Aus''
     = Inr \<lparr>books = [book2], totalBooks = 1, totalPages = Num 1\<rparr>"
    by (simp add: ev)
  have d2: "readBooks no_faults by_id no_props store3 1 10 ''title'' ''asc'' ''zzz''
     = Inr \<lparr>books = [], totalBooks = 0, totalPages = Num 0\<rparr>"
    by (simp add: ev)
  have d3: "readBooks no_faults by_id no_props store3 1 10 ''title'' ''asc'' []
     = Inr \<lparr>books = [book1, book2, book3], totalBooks = 3, totalPages = Num 1\<rparr>"
    by (simp add: ev)
  have q: "''Aus'' \<noteq> []" "no_wildcards ''Aus''"
    by (simp_all add: no_wildcards_def)
  note t = readBooks_search [where flt = no_faults and tie = by_id and props = no_props
      and db = store3 and page = 1 and pageSize = 10
      and sortField = "''title''" and sortOrder = "''asc''" and searchQuery = "''Aus''",
      THEN conjunct2, THEN spec, THEN mp, OF d1]
  from t [THEN conjunct2, THEN conjunct1] q
  have "(\<forall>b \<in> set [book2]. b \<in> set (books_rows store3)
         \<and> (sublist ''Aus'' (title b) \<or> sublist ''Aus'' (author b) \<or> sublist ''Aus'' (isbn b)))
   \<and> (1::int) = int (length (filter (\<lambda>b. sublist ''Aus'' (title b) \<or> sublist ''Aus'' (author b)
                                  \<or> sublist ''Aus'' (isbn b)) (books_rows store3)))"
    by simp
  then have a: "book2 \<in> set (books_rows store3) \<and> sublist ''Aus'' (author book2)
   \<and> (1::int) = int (length (filter (\<lambda>b. sublist ''Aus'' (title b) \<or> sublist ''Aus'' (author b)
                                  \<or> sublist ''Aus'' (isbn b)) (books_rows store3)))"
    by (simp add: sample_fields sublist_code)
  from t [THEN conjunct1] q(1)
  have "\<forall>b \<in> set [book2]. b \<in> set (books_rows store3)
               \<and> (like (title b) (''%'' @ ''Aus'' @ ''%'')
                    \<or> like (author b) (''%'' @ ''Aus'' @ ''%'')
                    \<or> like (isbn b) (''%'' @ ''Aus'' @ ''%''))"
    by simp
  then have b: "like (author book2) (''%'' @ ''Aus'' @ ''%'')"
    by (simp add: sample_fields like_def)
  from a b d1 d2 d3 q show ?thesis by blast
qed

text \<open>
  C5 as claimed fails. The search string \<^verbatim>\<open>_\<close> is a wildcard of the pattern: every
  title of the sample store is returned and counted, though none of the searched fields
  of the first contains an underscore. And with \<open>pageSize = 0\<close> a search that matches
  nothing has \<open>totalPages = NaN\<close> (\<^verbatim>\<open>Math.ceil(0 / 0)\<close>).
\<close>

theorem readBooks_search_wildcard:
  "readBooks no_faults by_id no_props store3 1 10 ''title'' ''asc'' ''_''
     = Inr \<lparr>books = [book1, book2, book3], totalBooks = 3, totalPages = Num 1\<rparr>
   \<and> \<not> sublist ''_'' (title book1) \<and> \<not> sublist ''_'' (author book1)
   \<and> \<not> sublist ''_'' (isbn book1)
   \<and> readBooks no_faults by_id no_props store3 1 0 ''title'' ''asc'' ''zzz''
     = Inr \<lparr>books = [], totalBooks = 0, totalPages = NaN\<rparr>"
  by (simp add: readBooks_def run_def limit_offset_def orderByClause_def books_lookup_def
    books_column_def orderBy_def sort_column_def where_rows_def whereClause_def js_ceil_div_def
    no_faults_def by_id_def store3_def like_def Let_def sample_fields sublist_code)

subsection \<open>All pages together\<close>








subsection \<open>The search by query\<close>

text \<open>
  C6, as the code has it. When the store fails either query of \<^verbatim>\<open>fetchBooksByQuery\<close>,
  the result is the empty result with \<open>currentPage = page\<close>, and nothing is raised. For
  every \<open>query\<close>, \<open>page\<close> and \<open>pageSize\<close>: \<open>currentPage\<close> is \<open>page\<close>, the rows returned
  are in descending order of \<open>id\<close>, and each of them is a row of the table one of whose
  \<open>title\<close>, \<open>author\<close>, \<open>isbn\<close> and \<open>genre\<close>, folded by the store's \<^verbatim>\<open>LOWER\<close>, matches the
  folded pattern \<^verbatim>\<open>%query%\<close> of \<^verbatim>\<open>LIKE\<close>; when the store answers a page \<open>\<ge> 1\<close> of size
  \<open>\<ge> 1\<close>, \<open>totalBooks\<close> counts exactly those rows of the table and the page is the slice
  of their arrangement in descending order of \<open>id\<close>. For a \<open>query\<close> without the wildcards
  of \<^verbatim>\<open>LIKE\<close> (\<^verbatim>\<open>%\<close>, \<^verbatim>\<open>_\<close>, backslash), a field matches exactly when, both folded, it
  contains \<open>query\<close> as a substring, so that all this holds of the rows containing
  \<open>query\<close>, letter case ignored as the store's \<^verbatim>\<open>LOWER\<close> ignores it.
\<close>

theorem fetchBooksByQuery_search:
  "(flt 0 \<or> flt 1 \<longrightarrow>
      fetchBooksByQuery flt tie lower db query page pageSize
        = \<lparr>books = [], totalBooks = 0, totalPages = Num 0, currentPage = page\<rparr>)
   \<and> currentPage (fetchBooksByQuery flt tie lower db query page pageSize) = page
   \<and> sorted (rev (map book_id (books (fetchBooksByQuery flt tie lower db query page pageSize))))
   \<and> (\<forall>b \<in> set (books (fetchBooksByQuery flt tie lower db query page pageSize)).
         b \<in> set (books_rows db)
         \<and> (like (lower (title b)) (lower (''%'' @ query @ ''%''))
              \<or> like (lower (author b)) (lower (''%'' @ query @ ''%''))
              \<or> like (lower (isbn b)) (lower (''%'' @ query @ ''%''))
              \<or> like (lower (genre b)) (lower (''%'' @ query @ ''%''))))
   \<and> (\<not> flt 0 \<and> \<not> flt 1 \<and> 1 \<le> page \<and> 1 \<le> pageSize \<longrightarrow>
        totalBooks (fetchBooksByQuery flt tie lower db query page pageSize)
          = int (length (filter (\<lambda>b. like (lower (title b)) (lower (''%'' @ query @ ''%''))
                           \<or> like (lower (author b)) (lower (''%'' @ query @ ''%''))
                           \<or> like (lower (isbn b)) (lower (''%'' @ query @ ''%''))
                           \<or> like (lower (genre b)) (lower (''%'' @ query @ ''%'')))
                    (books_rows db)))
        \<and> (\<exists>ordered.
              mset ordered
                = mset (filter (\<lambda>b. like (lower (title b)) (lower (''%'' @ query @ ''%''))
                           \<or> like (lower (author b)) (lower (''%'' @ query @ ''%''))
                           \<or> like (lower (isbn b)) (lower (''%'' @ query @ ''%''))
                           \<or> like (lower (genre b)) (lower (''%'' @ query @ ''%'')))
                    (books_rows db))
              \<and> sorted (rev (map book_id ordered))
              \<and> books (fetchBooksByQuery flt tie lower db query page pageSize)
                  = take (nat pageSize) (drop (nat ((page - 1) * pageSize)) ordered)))
   \<and> (case_folding lower \<and> no_wildcards query \<longrightarrow>
        (\<forall>s. like (lower s) (lower (''%'' @ query @ ''%'')) \<longleftrightarrow> sublist (lower query) (lower s))
        \<and> (\<forall>b \<in> set (books (fetchBooksByQuery flt tie lower db query page pageSize)).
              b \<in> set (books_rows db)
              \<and> (sublist (lower query) (lower (title b))
                   \<or> sublist (lower query) (lower (author b))
                   \<or> sublist (lower query) (lower (isbn b))
                   \<or> sublist (lower query) (lower (genre b))))
        \<and> (\<not> flt 0 \<and> \<not> flt 1 \<and> 1 \<le> page \<and> 1 \<le> pageSize \<longrightarrow>
             totalBooks (fetchBooksByQuery flt tie lower db query page pageSize)
               = int (length (filter (\<lambda>b. sublist (lower query) (lower (title b))
                                \<or> sublist (lower query) (lower (author b))
                                \<or> sublist (lower query) (lower (isbn b))
                                \<or> sublist (lower query) (lower (genre b))) (books_rows db)))
             \<and> (\<exists>ordered.
                   mset ordered
                     = mset (filter (\<lambda>b. sublist (lower query) (lower (title b))
                                  \<or> sublist (lower query) (lower (author b))
                                  \<or> sublist (lower query) (lower (isbn b))
                                  \<or> sublist (lower query) (lower (genre b))) (books_rows db))
                   \<and> sorted (rev (map book_id ordered))
                   \<and> books (fetchBooksByQuery flt tie lower db query page pageSize)
                       = take (nat pageSize) (drop (nat ((page - 1) * pageSize)) ordered))))"
proof -
  let ?r = "fetchBooksByQuery flt tie lower db query page pageSize"
  let ?pat = "lower (''%'' @ query @ ''%'')"
  let ?m = "filter (query_clause lower query) (books_rows db)"
  let ?S = "orderBy tie (Desc (Column Col_id)) ?m"
  let ?like = "\<lambda>b. like (lower (title b)) ?pat \<or> like (lower (author b)) ?pat
                  \<or> like (lower (isbn b)) ?pat \<or> like (lower (genre b)) ?pat"
  let ?has = "\<lambda>b. sublist (lower query) (lower (title b))
                  \<or> sublist (lower query) (lower (author b))
                  \<or> sublist (lower query) (lower (isbn b))
                  \<or> sublist (lower query) (lower (genre b))"
  have A: "flt 0 \<or> flt 1 \<longrightarrow>
      ?r = \<lparr>books = [], totalBooks = 0, totalPages = Num 0, currentPage = page\<rparr>"
    by (auto simp: fetchBooksByQuery_def run_def limit_offset_def Let_def)
  have cp: "currentPage ?r = page"
    by (simp add: fetchBooksByQuery_def run_def limit_offset_def Let_def)
  have "books ?r = take 0 (drop 0 ?S)
        \<or> books ?r = take (length ?S) (drop (nat ((page - 1) * pageSize)) ?S)
        \<or> books ?r = take (nat pageSize) (drop (nat ((page - 1) * pageSize)) ?S)"
    by (simp add: fetchBooksByQuery_def run_def limit_offset_def Let_def)
  then obtain k j where bs: "books ?r = take k (drop j ?S)" by blast
  have S: "mset ?S = mset ?m" by (rule mset_orderBy)
  have sd: "sorted (rev (map book_id ?S))" by (rule orderBy_desc_id)
  have s: "sorted (rev (map book_id (books ?r)))"
    unfolding bs using sd by (rule sorted_desc_slice)
  have sub: "set (books ?r) \<subseteq> set ?m"
  proof -
    have "set (books ?r) \<subseteq> set ?S"
      unfolding bs by (auto dest: in_set_takeD in_set_dropD)
    also have "\<dots> = set ?m" using S by (rule mset_eq_setD)
    finally show ?thesis .
  qed
  have answered: "totalBooks ?r = int (length ?m)
        \<and> (\<exists>ordered. mset ordered = mset ?m \<and> sorted (rev (map book_id ordered))
              \<and> books ?r = take (nat pageSize) (drop (nat ((page - 1) * pageSize)) ordered))"
    if h: "\<not> flt 0 \<and> \<not> flt 1 \<and> 1 \<le> page \<and> 1 \<le> pageSize"
  proof -
    from h have "0 \<le> (page - 1) * pageSize" by simp
    then have "\<not> (page - 1) * pageSize < 0" by (simp only: not_less)
    moreover from h have "\<not> pageSize < 0" by simp
    ultimately have b: "books ?r = take (nat pageSize) (drop (nat ((page - 1) * pageSize)) ?S)"
      and tb: "totalBooks ?r = int (length ?m)"
      using h by (simp_all add: fetchBooksByQuery_def run_def limit_offset_def Let_def)
    with S sd show ?thesis by blast
  qed
  have general: "(\<forall>b \<in> set (books ?r). b \<in> set (books_rows db) \<and> P b)
        \<and> (\<not> flt 0 \<and> \<not> flt 1 \<and> 1 \<le> page \<and> 1 \<le> pageSize \<longrightarrow>
             totalBooks ?r = int (length (filter P (books_rows db)))
             \<and> (\<exists>ordered. mset ordered = mset (filter P (books_rows db))
                   \<and> sorted (rev (map book_id ordered))
                   \<and> books ?r = take (nat pageSize) (drop (nat ((page - 1) * pageSize)) ordered)))"
    if m: "?m = filter P (books_rows db)" for P
  proof -
    from sub have "\<forall>b \<in> set (books ?r). b \<in> set (books_rows db) \<and> P b"
      unfolding m by auto
    moreover from answered
    have "\<not> flt 0 \<and> \<not> flt 1 \<and> 1 \<le> page \<and> 1 \<le> pageSize \<longrightarrow>
             totalBooks ?r = int (length (filter P (books_rows db)))
             \<and> (\<exists>ordered. mset ordered = mset (filter P (books_rows db))
                   \<and> sorted (rev (map book_id ordered))
                   \<and> books ?r = take (nat pageSize) (drop (nat ((page - 1) * pageSize)) ordered))"
      unfolding m by blast
    ultimately show ?thesis by blast
  qed
  have ql: "query_clause lower query = ?like"
    by (rule ext) (simp add: query_clause_def Let_def)
  then have "?m = filter ?like (books_rows db)" by (rule arg_cong)
  note G = general [OF this]
  have H: "(\<forall>s. like (lower s) ?pat \<longleftrightarrow> sublist (lower query) (lower s))
        \<and> (\<forall>b \<in> set (books ?r). b \<in> set (books_rows db) \<and> ?has b)
        \<and> (\<not> flt 0 \<and> \<not> flt 1 \<and> 1 \<le> page \<and> 1 \<le> pageSize \<longrightarrow>
             totalBooks ?r = int (length (filter ?has (books_rows db)))
             \<and> (\<exists>ordered. mset ordered = mset (filter ?has (books_rows db))
                   \<and> sorted (rev (map book_id ordered))
                   \<and> books ?r = take (nat pageSize) (drop (nat ((page - 1) * pageSize)) ordered)))"
    if h: "case_folding lower \<and> no_wildcards query"
  proof -
    from h have eq: "\<forall>s. like (lower s) ?pat \<longleftrightarrow> sublist (lower query) (lower s)"
      by (simp only: like_folded_substring simp_thms)
    then have lh: "?like = ?has" by (intro ext) (simp only:)
    have "?m = filter ?has (books_rows db)"
      unfolding ql by (simp only: lh)
    from general [OF this] eq show ?thesis by blast
  qed
  from A cp s G H show ?thesis by blast
qed

theorem fetchBooksByQuery_search_witness:
  "fetchBooksByQuery store_down by_id lower_ascii store3 ''NOVEL'' 1 10
     = \<lparr>books = [], totalBooks = 0, totalPages = Num 0, currentPage = 1\<rparr>
   \<and> fetchBooksByQuery no_faults by_id lower_ascii store3 ''NOVEL'' 1 10
     = \<lparr>books = [book3, book2], totalBooks = 2, totalPages = Num 1, currentPage = 1\<rparr>
   \<and> sorted (rev (map book_id [book3, book2]))
   \<and> like (lower_ascii (genre book3)) (lower_ascii (''%'' @ ''NOVEL'' @ ''%''))
   \<and> sublist (lower_ascii ''NOVEL'') (lower_ascii (genre book3))
   \<and> sublist (lower_ascii ''NOVEL'') (lower_ascii (genre book2))
   \<and> (2::int) = int (length (filter (\<lambda>b. sublist (lower_ascii ''NOVEL'') (lower_ascii (title b))
                                  \<or> sublist (lower_ascii ''NOVEL'') (lower_ascii (author b))
                                  \<or> sublist (lower_ascii ''NOVEL'') (lower_ascii (isbn b))
                                  \<or> sublist (lower_ascii ''NOVEL'') (lower_ascii (genre b)))
                           (books_rows store3)))"
proof -
  note ev = fetchBooksByQuery_def run_def limit_offset_def query_clause_def
    orderBy_def sort_column_def js_ceil_div_def lower_ascii_def lower_ascii_char_def
    no_faults_def by_id_def store3_def like_def Let_def sample_fields
  note t = fetchBooksByQuery_search [where tie = by_id and lower = lower_ascii and db = store3
      and query = "''NOVEL''" and pageSize = 10 and page = 1]
  from t [where flt = store_down, THEN conjunct1]
  have a: "fetchBooksByQuery store_down by_id lower_ascii store3 ''NOVEL'' 1 10
     = \<lparr>books = [], totalBooks = 0, totalPages = Num 0, currentPage = 1\<rparr>"
    by (simp add: store_down_def)
  have d: "fetchBooksByQuery no_faults by_id lower_ascii store3 ''NOVEL'' 1 10
     = \<lparr>books = [book3, book2], totalBooks = 2, totalPages = Num 1, currentPage = 1\<rparr>"
    by (simp add: ev)
  have q: "case_folding lower_ascii \<and> no_wildcards ''NOVEL''"
    by (simp add: case_folding_ascii no_wildcards_def)
  have f: "\<not> no_faults 0 \<and> \<not> no_faults 1 \<and> (1::int) \<le> 1 \<and> (1::int) \<le> 10"
    by (simp add: no_faults_def)
  note u = t [where flt = no_faults, THEN conjunct2, THEN conjunct2]
  from u [THEN conjunct1]
  have s: "sorted (rev (map book_id [book3, book2]))"
    unfolding d by simp
  from u [THEN conjunct2, THEN conjunct1]
  have "\<forall>b \<in> set [book3, book2]. b \<in> set (books_rows store3)
         \<and> (like (lower_ascii (title b)) (lower_ascii (''%'' @ ''NOVEL'' @ ''%''))
              \<or> like (lower_ascii (author b)) (lower_ascii (''%'' @ ''NOVEL'' @ ''%''))
              \<or> like (lower_ascii (isbn b)) (lower_ascii (''%'' @ ''NOVEL'' @ ''%''))
              \<or> like (lower_ascii (genre b)) (lower_ascii (''%'' @ ''NOVEL'' @ ''%'')))"
    unfolding d by simp
  then have l: "like (lower_ascii (genre book3)) (lower_ascii (''%'' @ ''NOVEL'' @ ''%''))"
    by (simp add: lower_ascii_def lower_ascii_char_def like_def sample_fields)
  from u [THEN conjunct2, THEN conjunct2, THEN conjunct2, THEN mp, OF q,
      THEN conjunct2, THEN conjunct2, THEN mp, OF f, THEN conjunct1]
  have c: "(2::int) = int (length (filter (\<lambda>b. sublist (lower_ascii ''NOVEL'') (lower_ascii (title b))
                                  \<or> sublist (lower_ascii ''NOVEL'') (lower_ascii (author b))
                                  \<or> sublist (lower_ascii ''NOVEL'') (lower_ascii (isbn b))
                                  \<or> sublist (lower_ascii ''NOVEL'') (lower_ascii (genre b)))
                           (books_rows store3)))"
    unfolding d by simp
  have g: "sublist (lower_ascii ''NOVEL'') (lower_ascii (genre book3))"
    "sublist (lower_ascii ''NOVEL'') (lower_ascii (genre book2))"
    by (simp_all add: lower_ascii_def lower_ascii_char_def sample_fields)
  from a s l c d g show ?thesis by blast
qed

text \<open>
  C6 as claimed fails: the query \<^verbatim>\<open>_\<close> is a wildcard of the pattern, and every title
  of the sample store is returned, though no searched field of the first contains an
  underscore.
\<close>

theorem fetchBooksByQuery_wildcard:
  "fetchBooksByQuery no_faults by_id lower_ascii store3 ''_'' 1 10
     = \<lparr>books = [book3, book2, book1], totalBooks = 3, totalPages = Num 1, currentPage = 1\<rparr>
   \<and> CHR ''_'' \<notin> set (title book1) \<and> CHR ''_'' \<notin> set (author book1)
   \<and> CHR ''_'' \<notin> set (isbn book1) \<and> CHR ''_'' \<notin> set (genre book1)
   \<and> \<not> sublist (lower_ascii ''_'') (lower_ascii (title book1))
   \<and> \<not> sublist (lower_ascii ''_'') (lower_ascii (author book1))
   \<and> \<not> sublist (lower_ascii ''_'') (lower_ascii (isbn book1))
   \<and> \<not> sublist (lower_ascii ''_'') (lower_ascii (genre book1))"
  by (simp add: fetchBooksByQuery_def run_def limit_offset_def query_clause_def
    orderBy_def sort_column_def js_ceil_div_def lower_ascii_def lower_ascii_char_def
    no_faults_def by_id_def store3_def like_def Let_def sample_fields sublist_code)

end
